theory Spec2Isabelle
  imports Main "HOL-Library.Sublist" "HOL-Library.AList"
begin

section \<open>Python strings and lists\<close>

text \<open>
  \<^verbatim>\<open>s.split(sep)\<close> for a separator of one character: the pieces between the
  occurrences of the separator, in order; there is always at least one piece
  (\<^verbatim>\<open>''.split(':') == ['']\<close>).
\<close>

fun str_split :: "char \<Rightarrow> string \<Rightarrow> string list" where
  "str_split c [] = [[]]"
| "str_split c (x # xs) =
     (if x = c then [] # str_split c xs
      else (case str_split c xs of
              [] \<Rightarrow> [[x]]
            | w # ws \<Rightarrow> (x # w) # ws))"

text \<open>\<^verbatim>\<open>sep.join(xs)\<close>.\<close>

fun str_join :: "string \<Rightarrow> string list \<Rightarrow> string" where
  "str_join sep [] = []"
| "str_join sep [x] = x"
| "str_join sep (x # y # ys) = x @ sep @ str_join sep (y # ys)"

section \<open>Exceptions\<close>

datatype error =
  KeyError | IndexError | RuntimeError | UnboundLocalError | TypeError | ValueError

section \<open>pymel/util/shell.py\<close>

text \<open>
  \<^verbatim>\<open>os.environ\<close> is a dictionary from variable names to strings.
  An assignment \<^verbatim>\<open>os.environ[key] = item\<close> first hands the pair to the platform's
  \<^verbatim>\<open>putenv\<close>; when that refuses the name or the value (a NUL byte, for one), the
  assignment raises and the dictionary stays as it was. What is refused belongs to
  the interpreter and the platform: it is the parameter \<open>putenv\<close>, None when the
  pair is accepted and the exception when it is not.
  \<^verbatim>\<open>os.path.pathsep\<close> is a constant of the standard library, one character
  (\<^verbatim>\<open>':'\<close> on POSIX, \<^verbatim>\<open>';'\<close> on Windows); it is the parameter \<open>pathsep\<close>.
\<close>

type_synonym environ = "string \<rightharpoonup> string"

type_synonym putenv = "string \<Rightarrow> string \<Rightarrow> error option"

definition environ_setitem :: "putenv \<Rightarrow> environ \<Rightarrow> string \<Rightarrow> string \<Rightarrow> error + environ" where
  "environ_setitem putenv environ key item =
     (case putenv key item of
        Some e \<Rightarrow> Inl e
      | None \<Rightarrow> Inr (environ(key \<mapsto> item)))"

text \<open>
  The functions return the new \<^verbatim>\<open>os.environ\<close>, or the exception in which the
  call ends; \<^verbatim>\<open>os.environ\<close> is then what it was before the call.
\<close>

definition appendEnv ::
  "char \<Rightarrow> putenv \<Rightarrow> environ \<Rightarrow> string \<Rightarrow> string \<Rightarrow> error + environ" where
  "appendEnv pathsep putenv environ env val =
     (case environ env of
        None \<Rightarrow> environ_setitem putenv environ env val
      | Some cur \<Rightarrow>
          (let splitEnv = str_split pathsep cur in
           if val \<notin> set splitEnv
           then environ_setitem putenv environ env (str_join [pathsep] (splitEnv @ [val]))
           else Inr environ))"

definition prependEnv ::
  "char \<Rightarrow> putenv \<Rightarrow> environ \<Rightarrow> string \<Rightarrow> string \<Rightarrow> error + environ" where
  "prependEnv pathsep putenv environ env val =
     (case environ env of
        None \<Rightarrow> environ_setitem putenv environ env val
      | Some cur \<Rightarrow>
          (let splitEnv = str_split pathsep cur in
           if val \<notin> set splitEnv
           then environ_setitem putenv environ env (str_join [pathsep] (val # splitEnv))
           else Inr environ))"

text \<open>A sample \<open>putenv\<close>: it refuses a name or a value with a NUL byte.\<close>

definition example_putenv :: putenv where
  "example_putenv key item =
     (if CHR 0x00 \<in> set key \<or> CHR 0x00 \<in> set item then Some TypeError else None)"

section \<open>misc/pymelScrollFieldReporter.py: values and constants\<close>

text \<open>
  The Python values that occur as filter settings, flag arguments and command
  results: \<^verbatim>\<open>None\<close>, booleans and strings.
\<close>

datatype pyval = PNone | PBool bool | PStr string

fun truthy :: "pyval \<Rightarrow> bool" where
  "truthy PNone = False"
| "truthy (PBool b) = b"
| "truthy (PStr s) = (s \<noteq> [])"

text \<open>\<^verbatim>\<open>'%s' % v\<close>.\<close>

fun py_str :: "pyval \<Rightarrow> string" where
  "py_str PNone = ''None''"
| "py_str (PBool b) = (if b then ''True'' else ''False'')"
| "py_str (PStr s) = s"

text \<open>
  \<^verbatim>\<open>v == s\<close> where \<open>s\<close> is \<^verbatim>\<open>None\<close> or a string: a boolean
  equals neither.
\<close>

fun py_eq :: "pyval \<Rightarrow> string option \<Rightarrow> bool" where
  "py_eq PNone t = (t = None)"
| "py_eq (PBool b) t = False"
| "py_eq (PStr s) t = (t = Some s)"

text \<open>
  \<^verbatim>\<open>xs[i]\<close>: a negative index counts from the end, an index outside the list
  raises IndexError.
\<close>

definition py_index :: "'a list \<Rightarrow> int \<Rightarrow> error + 'a" where
  "py_index xs i =
     (if 0 \<le> i \<and> i < int (length xs) then Inr (xs ! nat i)
      else if i < 0 \<and> - int (length xs) \<le> i then Inr (xs ! nat (int (length xs) + i))
      else Inl IndexError)"

text \<open>\<^verbatim>\<open>xs[i:]\<close>: a negative start counts from the end and is clamped at 0.\<close>

definition py_slice_from :: "'a list \<Rightarrow> int \<Rightarrow> 'a list" where
  "py_slice_from xs i =
     (if i < 0 then drop (nat (max 0 (int (length xs) + i))) xs else drop (nat i) xs)"

text \<open>\<^verbatim>\<open>s.rfind(c)\<close>: the highest index of \<open>c\<close> in \<open>s\<close>, or -1.\<close>

fun rfind :: "string \<Rightarrow> char \<Rightarrow> int" where
  "rfind [] c = - 1"
| "rfind (x # xs) c =
     (let r = rfind xs c in
      if 0 \<le> r then r + 1 else if x = c then 0 else - 1)"

definition kPluginCmdName :: string where
  "kPluginCmdName = ''pymelScrollFieldReporter''"

definition kClear :: "string \<times> string" where
  "kClear = (''clear'', ''clr'')"

definition kText :: "string \<times> string" where
  "kText = (''text'', ''t'')"

definition kCmdReporter :: "string \<times> string" where
  "kCmdReporter = (''cmdReporter'', ''cr'')"

definition kMel :: string where
  "kMel = ''mel''"

definition kPython :: string where
  "kPython = ''python''"

text \<open>The two argument types of \<^verbatim>\<open>OpenMaya.MSyntax\<close> that the flag tables use.\<close>

datatype MSyntax = kBoolean | kString

text \<open>
  The flag tables are dictionaries that the code only iterates; they are lists
  here, in the order of the source text.
\<close>

definition filterFlags :: "(string \<times> string \<times> MSyntax \<times> pyval) list" where
  "filterFlags =
     [(''convertToPython'', ''ctp'', kBoolean, PBool False),
      (''filterSourceType'', ''fst'', kString, PStr []),
      (''suppressPrintouts'', ''spo'', kBoolean, PBool False),
      (''suppressInfo'', ''si'', kBoolean, PBool False),
      (''suppressWarnings'', ''sw'', kBoolean, PBool False),
      (''suppressErrors'', ''se'', kBoolean, PBool False),
      (''suppressResults'', ''sr'', kBoolean, PBool False),
      (''suppressStackTrace'', ''sst'', kBoolean, PBool False)]"

definition globalFilterFlags :: "(string \<times> string \<times> MSyntax \<times> pyval) list" where
  "globalFilterFlags =
     [(''echoAllCommands'', ''eac'', kBoolean, PBool False),
      (''lineNumbers'', ''ln'', kBoolean, PBool False),
      (''stackTrace'', ''st'', kBoolean, PBool False)]"

definition filterFlagNames :: "string list" where
  "filterFlagNames =
     [[], ''suppressPrintouts'', ''suppressInfo'', ''suppressWarnings'',
      ''suppressErrors'', ''suppressResults'', ''suppressStackTrace'']"

text \<open>
  The message types of \<^verbatim>\<open>OpenMaya.MCommandMessage\<close> are integers that the host
  defines; the module compares with five of them. They are a parameter.
\<close>

record MCommandMessage =
  kHistory :: int
  kInfo :: int
  kWarning :: int
  kError :: int
  kResult :: int

section \<open>The reporter and the module's state\<close>

text \<open>
  A buffered line is the list
  \<^verbatim>\<open>[messageType, sourceType, nativeMsg, convertedMsg]\<close>.
\<close>

type_synonym line = "int \<times> string option \<times> string \<times> string option"

record reporter =
  name :: string
  filters :: "string \<rightharpoonup> pyval"
  history :: "line list"

text \<open>
  The module's globals, the two class attributes of \<^verbatim>\<open>Reporter\<close>, and what the
  module does to the world outside: the commands it has had the host execute, the
  command-output callbacks it has installed, and what it has written to
  \<^verbatim>\<open>/var/tmp/commandOutput\<close> and to \<^verbatim>\<open>sys.stderr\<close>.
  \<open>reporters\<close> is the dictionary \<^verbatim>\<open>reporters\<close> in its iteration order; a
  \<^verbatim>\<open>Reporter\<close> object is addressed by its position there.
\<close>

record state =
  callbackState :: bool
  sourceType :: "string option"
  messageId :: nat
  messageIdSet :: bool
  reporters :: "(string \<times> reporter) list"
  cmdReporter :: pyval
  globalFilters :: "string \<rightharpoonup> pyval"
  executed :: "string list"
  callbacks :: "nat list"
  commandOutput :: "string list"
  stderr :: "string list"

text \<open>
  What the module calls and does not define. For a command given to
  \<^verbatim>\<open>MGlobal.executeCommand\<close>: the output messages \<open>(nativeMsg, messageType)\<close>
  that the host delivers to the installed callbacks while the command runs, whether
  the command fails (the Python API then raises RuntimeError), and its string result.
  \<open>addCommandOutputCallback\<close> is the identifier of the callback that
  \<^verbatim>\<open>MCommandMessage.addCommandOutputCallback\<close> returns, or None when it raises.
  \<open>mel2pyStr\<close> is None when \<^verbatim>\<open>pymel.mel2py.mel2pyStr\<close> raises.
\<close>

record host =
  emits :: "state \<Rightarrow> string \<Rightarrow> (string \<times> int) list"
  fails :: "state \<Rightarrow> string \<Rightarrow> bool"
  stringResult :: "state \<Rightarrow> string \<Rightarrow> string"
  addCommandOutputCallback :: "state \<Rightarrow> nat option"
  encodeString :: "string \<Rightarrow> string"
  mel2pyStr :: "string \<Rightarrow> string option"
  messageTypes :: MCommandMessage

text \<open>
  The outcome of a call: it returns a value in a new state, or raises an exception in
  the state reached so far, or does not return within the nesting depth allowed
  (see \<open>cmdCallback\<close> below).
\<close>

datatype 'a res = Diverges | Raises error state | Returns 'a state

fun bind :: "'a res \<Rightarrow> ('a \<Rightarrow> state \<Rightarrow> 'b res) \<Rightarrow> 'b res" where
  "bind Diverges f = Diverges"
| "bind (Raises e st) f = Raises e st"
| "bind (Returns a st) f = f a st"

text \<open>The state in which a call ends, when it ends.\<close>

fun final :: "'a res \<Rightarrow> state option" where
  "final Diverges = None"
| "final (Raises e st) = Some st"
| "final (Returns a st) = Some st"

type_synonym callback = "string \<Rightarrow> int \<Rightarrow> state \<Rightarrow> unit res"

section \<open>The host runs a command\<close>

text \<open>
  The host calls every installed callback with every message the command puts out,
  before the command returns. An exception that leaves a callback is reported by the
  host and does not stop the command; the state the callback reached stays.
\<close>

fun call_callbacks :: "callback \<Rightarrow> nat list \<Rightarrow> string \<times> int \<Rightarrow> state \<Rightarrow> unit res" where
  "call_callbacks cb [] msg st = Returns () st"
| "call_callbacks cb (ident # ids) msg st =
     (case cb (fst msg) (snd msg) st of
        Diverges \<Rightarrow> Diverges
      | Raises e st' \<Rightarrow> call_callbacks cb ids msg st'
      | Returns u st' \<Rightarrow> call_callbacks cb ids msg st')"

fun deliver :: "callback \<Rightarrow> (string \<times> int) list \<Rightarrow> state \<Rightarrow> unit res" where
  "deliver cb [] st = Returns () st"
| "deliver cb (msg # msgs) st =
     bind (call_callbacks cb (callbacks st) msg st) (\<lambda>u. deliver cb msgs)"

definition host_execute :: "callback \<Rightarrow> host \<Rightarrow> string \<Rightarrow> state \<Rightarrow> string res" where
  "host_execute cb h cmd st =
     bind (deliver cb (emits h st cmd) (st\<lparr>executed := executed st @ [cmd]\<rparr>))
       (\<lambda>u st'. if fails h st cmd then Raises RuntimeError st'
                else Returns (stringResult h st cmd) st')"

section \<open>class Reporter\<close>

definition default_filters :: "string \<rightharpoonup> pyval" where
  "default_filters =
     [''convertToPython'' \<mapsto> PBool False,
      ''filterSourceType'' \<mapsto> PStr [],
      ''suppressPrintouts'' \<mapsto> PBool False,
      ''suppressInfo'' \<mapsto> PBool False,
      ''suppressWarnings'' \<mapsto> PBool False,
      ''suppressErrors'' \<mapsto> PBool False,
      ''suppressResults'' \<mapsto> PBool False,
      ''suppressStackTrace'' \<mapsto> PBool False]"

definition executeCommand :: "callback \<Rightarrow> host \<Rightarrow> string \<Rightarrow> state \<Rightarrow> unit res" where
  "executeCommand cb h cmd st =
     bind (host_execute cb h cmd (st\<lparr>callbackState := False\<rparr>))
       (\<lambda>r st'. Returns () (st'\<lparr>callbackState := True\<rparr>))"

definition executeCommandResult :: "callback \<Rightarrow> host \<Rightarrow> string \<Rightarrow> state \<Rightarrow> string res" where
  "executeCommandResult cb h cmd st =
     bind (host_execute cb h cmd (st\<lparr>callbackState := False\<rparr>))
       (\<lambda>r st'. Returns r (st'\<lparr>callbackState := True\<rparr>))"

text \<open>
  \<^verbatim>\<open>Reporter(*args, **kwargs)\<close>; the new object is not yet in the dictionary
  and is returned as a value.
\<close>

definition Reporter_init ::
  "callback \<Rightarrow> host \<Rightarrow> string option \<Rightarrow> (string \<times> pyval) list \<Rightarrow> state \<Rightarrow> reporter res" where
  \<open>Reporter_init cb h args kwargs st =
     (let nm = (case args of None \<Rightarrow> kPluginCmdName | Some a \<Rightarrow> a);
          flt = default_filters ++ map_of kwargs;
          cmd = ''scrollField -wordWrap false -editable false "'' @ nm @ ''"''
      in bind (executeCommandResult cb h cmd st)
           (\<lambda>r st'. Returns \<lparr>name = r, filters = flt, history = []\<rparr> st'))\<close>

definition lineFilter :: "reporter \<Rightarrow> line \<Rightarrow> error + string option" where
  "lineFilter self ln =
     (case ln of (messageType, srcType, nativeMsg, convertedMsg) \<Rightarrow>
        (case filters self ''filterSourceType'' of
           None \<Rightarrow> Inl KeyError
         | Some filterSourceType \<Rightarrow>
             if \<not> truthy filterSourceType \<or> py_eq filterSourceType srcType then
               (case py_index filterFlagNames messageType of
                  Inl e \<Rightarrow> Inl e
                | Inr flag \<Rightarrow>
                    if \<not> truthy (case filters self flag of None \<Rightarrow> PBool False | Some v \<Rightarrow> v) then
                      (case filters self ''convertToPython'' of
                         None \<Rightarrow> Inl KeyError
                       | Some ctp \<Rightarrow>
                           if truthy ctp \<and> convertedMsg \<noteq> None then Inr convertedMsg
                           else Inr (Some nativeMsg))
                    else Inr None)
             else Inr None))"

text \<open>
  The loop of \<^verbatim>\<open>refreshHistory\<close>: \<^verbatim>\<open>output += None\<close> raises the TypeError
  that the loop catches, so a line that \<open>lineFilter\<close> suppresses adds nothing; a
  KeyError or IndexError of \<open>lineFilter\<close> is not caught.
\<close>

fun refreshHistory_loop :: "reporter \<Rightarrow> line list \<Rightarrow> string \<Rightarrow> error + string" where
  "refreshHistory_loop self [] output = Inr output"
| "refreshHistory_loop self (ln # rest) output =
     (case lineFilter self ln of
        Inl e \<Rightarrow> Inl e
      | Inr None \<Rightarrow> refreshHistory_loop self rest output
      | Inr (Some s) \<Rightarrow> refreshHistory_loop self rest (output @ s))"

definition self_at :: "state \<Rightarrow> nat \<Rightarrow> reporter" where
  "self_at st i = snd (reporters st ! i)"

definition self_update :: "nat \<Rightarrow> (reporter \<Rightarrow> reporter) \<Rightarrow> state \<Rightarrow> state" where
  "self_update i f st =
     st\<lparr>reporters := (reporters st)[i := (fst (reporters st ! i), f (snd (reporters st ! i)))]\<rparr>"

definition refreshHistory :: "callback \<Rightarrow> host \<Rightarrow> nat \<Rightarrow> state \<Rightarrow> unit res" where
  \<open>refreshHistory cb h self st =
     (case refreshHistory_loop (self_at st self) (history (self_at st self)) [] of
        Inl e \<Rightarrow> Raises e st
      | Inr output \<Rightarrow>
          executeCommand cb h
            (''scrollField -e -text "'' @ output @ ''" "'' @ name (self_at st self) @ ''";'') st)\<close>

definition appendHistory :: "callback \<Rightarrow> host \<Rightarrow> nat \<Rightarrow> line \<Rightarrow> state \<Rightarrow> unit res" where
  \<open>appendHistory cb h self ln st =
     (let st1 = self_update self (\<lambda>r. r\<lparr>history := history r @ [ln]\<rparr>) st in
      case lineFilter (self_at st1 self) ln of
        Inl e \<Rightarrow> Raises e st1
      | Inr None \<Rightarrow> Returns () st1
      | Inr (Some output) \<Rightarrow>
          executeCommand cb h
            (''scrollField -e -insertText "'' @ output @ ''" "'' @ name (self_at st1 self) @ ''";'') st1)\<close>

definition setFilters ::
  "callback \<Rightarrow> host \<Rightarrow> nat \<Rightarrow> (string \<times> pyval) list \<Rightarrow> state \<Rightarrow> unit res" where
  "setFilters cb h self kwargs st =
     refreshHistory cb h self
       (self_update self (\<lambda>r. r\<lparr>filters := filters r ++ map_of kwargs\<rparr>) st)"

definition setGlobalFilters ::
  "callback \<Rightarrow> host \<Rightarrow> nat \<Rightarrow> (string \<times> pyval) list \<Rightarrow> state \<Rightarrow> unit res" where
  \<open>setGlobalFilters cb h self kwargs st =
     (let flags = concat (map (\<lambda>(key, v). ''-'' @ key @ '' '' @ (if truthy v then ''1'' else ''0'') @ '' '') kwargs);
          cmd = ''cmdScrollFieldReporter -e '' @ flags @ '' "'' @ py_str (cmdReporter st) @ ''";'';
          st1 = st\<lparr>commandOutput := commandOutput st @ [cmd @ ''\<newline>'']\<rparr>
      in bind (executeCommand cb h cmd st1)
           (\<lambda>u st2. Returns () (st2\<lparr>globalFilters := globalFilters st2 ++ map_of kwargs\<rparr>)))\<close>

text \<open>Only the first statement of \<^verbatim>\<open>getGlobalFilter\<close> can run: it returns.\<close>

definition getGlobalFilter :: "nat \<Rightarrow> string \<Rightarrow> state \<Rightarrow> pyval res" where
  "getGlobalFilter self flt st =
     (case globalFilters st flt of None \<Rightarrow> Raises KeyError st | Some v \<Rightarrow> Returns v st)"

definition addCmdReporter :: "nat \<Rightarrow> string \<Rightarrow> state \<Rightarrow> unit res" where
  "addCmdReporter self c st = Returns () (st\<lparr>cmdReporter := PStr c\<rparr>)"

definition Reporter_clear :: "callback \<Rightarrow> host \<Rightarrow> nat \<Rightarrow> state \<Rightarrow> unit res" where
  \<open>Reporter_clear cb h self st =
     executeCommand cb h (''scrollField -e -clear "'' @ name (self_at st self) @ ''";'') st\<close>

definition Reporter_text :: "callback \<Rightarrow> host \<Rightarrow> nat \<Rightarrow> string \<Rightarrow> state \<Rightarrow> unit res" where
  \<open>Reporter_text cb h self txt st =
     executeCommand cb h
       (''scrollField -e -text "'' @ txt @ ''" "'' @ name (self_at st self) @ ''";'') st\<close>

section \<open>class ReporterDict\<close>

text \<open>
  \<^verbatim>\<open>__getitem__\<close> walks the items of the dictionary, here the list of its
  \<open>(key, value)\<close> pairs in iteration order, and returns at the first match.
\<close>

fun ReporterDict_getitem :: "(string \<times> 'v) list \<Rightarrow> string \<Rightarrow> error + 'v" where
  "ReporterDict_getitem [] lookupName = Inl KeyError"
| "ReporterDict_getitem ((key, val) # rest) lookupName =
     (let lookupBuf = str_split (CHR ''|'') lookupName;
          keyBuf = str_split (CHR ''|'') key
      in if py_slice_from keyBuf (- 1 * int (length lookupBuf)) = lookupBuf then Inr val
         else ReporterDict_getitem rest lookupName)"

text \<open>
  \<^verbatim>\<open>reporters[name]\<close>: the value found is a \<^verbatim>\<open>Reporter\<close> object, that is,
  its position in \<open>reporters\<close>.
\<close>

definition reporters_getitem :: "state \<Rightarrow> string \<Rightarrow> error + nat" where
  "reporters_getitem st nm =
     ReporterDict_getitem (zip (map fst (reporters st)) [0..<length (reporters st)]) nm"

section \<open>cmdCallback\<close>

text \<open>
  The dictionary literal of \<^verbatim>\<open>cmdCallback\<close>; a later entry replaces an earlier
  one with the same key.
\<close>

definition prefixes :: "MCommandMessage \<Rightarrow> int \<rightharpoonup> string" where
  "prefixes c =
     [kInfo c \<mapsto> ''Info'', kWarning c \<mapsto> ''Warning'', kError c \<mapsto> ''Error'',
      kResult c \<mapsto> ''Result'']"

fun for_reporters :: "(nat \<Rightarrow> state \<Rightarrow> unit res) \<Rightarrow> nat list \<Rightarrow> state \<Rightarrow> unit res" where
  "for_reporters f [] st = Returns () st"
| "for_reporters f (i # rest) st = bind (f i st) (\<lambda>u. for_reporters f rest)"

text \<open>
  What \<^verbatim>\<open>cmdCallback\<close> computes before its loop: the new \<^verbatim>\<open>sourceType\<close>
  and the line. The parameter \<^verbatim>\<open>data\<close> is not used.
\<close>

definition classify :: "host \<Rightarrow> string \<Rightarrow> int \<Rightarrow> state \<Rightarrow> state \<times> line" where
  \<open>classify h nativeMsg messageType st =
     (let (st1, nativeMsg1, convertedMsg) =
            (if messageType = kHistory (messageTypes h) then
               (if rfind nativeMsg (CHR '';'') = int (length nativeMsg) - 2
                then (st\<lparr>sourceType := Some kMel\<rparr>, nativeMsg, mel2pyStr h nativeMsg)
                else (st\<lparr>sourceType := Some kPython\<rparr>, nativeMsg, None))
             else
               (case prefixes (messageTypes h) messageType of
                  None \<Rightarrow> (st, nativeMsg, None)
                | Some p \<Rightarrow>
                    (let m = p @ '': '' @ nativeMsg in
                     if sourceType st = Some kMel
                     then (st, ''// '' @ m @ '' //\<newline>'', Some (''# '' @ m @ '' #\<newline>''))
                     else (st, ''# '' @ m @ '' #\<newline>'', None))))
      in (st1, (messageType, sourceType st1, encodeString h nativeMsg1,
                map_option (encodeString h) convertedMsg)))\<close>

definition cmdCallback_body :: "callback \<Rightarrow> host \<Rightarrow> callback" where
  "cmdCallback_body cb h nativeMsg messageType st =
     (if \<not> callbackState st then Returns () st
      else
        (let (st1, ln) = classify h nativeMsg messageType st
         in for_reporters (\<lambda>i. appendHistory cb h i ln) [0..<length (reporters st1)] st1))"

text \<open>
  While a command of a reporter runs, the host may call \<^verbatim>\<open>cmdCallback\<close> again.
  The first argument bounds the depth of such calls inside calls: at depth 0 the call
  does not return.
\<close>

fun cmdCallback :: "nat \<Rightarrow> host \<Rightarrow> callback" where
  "cmdCallback 0 h nativeMsg messageType st = Diverges"
| "cmdCallback (Suc n) h nativeMsg messageType st =
     cmdCallback_body (cmdCallback n h) h nativeMsg messageType st"

section \<open>class scriptedCommand\<close>

text \<open>
  When \<^verbatim>\<open>addCommandOutputCallback\<close> raises, \<^verbatim>\<open>id\<close> has no value at
  \<^verbatim>\<open>return id\<close>.
\<close>

definition createCallback :: "host \<Rightarrow> state \<Rightarrow> nat res" where
  "createCallback h st =
     (case addCommandOutputCallback h st of
        None \<Rightarrow>
          Raises UnboundLocalError
            (st\<lparr>stderr := stderr st @ [''Failed to install callback\<newline>''],
                messageIdSet := False\<rparr>)
      | Some ident \<Rightarrow>
          Returns ident (st\<lparr>callbacks := callbacks st @ [ident], messageIdSet := True\<rparr>))"

text \<open>
  The parsed arguments of an invocation (\<^verbatim>\<open>MArgDatabase\<close>): the command argument
  when there is one, the mode, and the flags that are set, each with its argument
  (\<open>PNone\<close> for a flag without one). Reading an argument of the wrong type fails.
\<close>

record argData =
  commandArgumentString :: "string option"
  isQuery :: bool
  isEdit :: bool
  flags :: "string \<rightharpoonup> pyval"

definition isFlagSet :: "argData \<Rightarrow> string \<Rightarrow> bool" where
  "isFlagSet a key = (flags a key \<noteq> None)"

definition flagArgumentBool :: "argData \<Rightarrow> string \<Rightarrow> error + bool" where
  "flagArgumentBool a key =
     (case flags a key of Some (PBool b) \<Rightarrow> Inr b | _ \<Rightarrow> Inl RuntimeError)"

definition flagArgumentString :: "argData \<Rightarrow> string \<Rightarrow> error + string" where
  "flagArgumentString a key =
     (case flags a key of Some (PStr s) \<Rightarrow> Inr s | _ \<Rightarrow> Inl RuntimeError)"

text \<open>The two loops of \<^verbatim>\<open>doIt\<close> that collect the flags into dictionaries.\<close>

fun collect_filters ::
  "argData \<Rightarrow> (string \<times> string \<times> MSyntax \<times> pyval) list \<Rightarrow> (string \<times> pyval) list \<Rightarrow>
   error + (string \<times> pyval) list" where
  "collect_filters a [] acc = Inr acc"
| "collect_filters a ((key, short, ty, dflt) # rest) acc =
     (if isFlagSet a key then
        (case ty of
           kBoolean \<Rightarrow>
             (case flagArgumentBool a key of
                Inl e \<Rightarrow> Inl e
              | Inr b \<Rightarrow> collect_filters a rest (AList.update key (PBool b) acc))
         | kString \<Rightarrow>
             (case flagArgumentString a key of
                Inl e \<Rightarrow> Inl e
              | Inr s \<Rightarrow> collect_filters a rest (AList.update key (PStr s) acc)))
      else collect_filters a rest acc)"

fun collect_globalFilters ::
  "argData \<Rightarrow> (string \<times> string \<times> MSyntax \<times> pyval) list \<Rightarrow> (string \<times> pyval) list \<Rightarrow>
   error + (string \<times> pyval) list" where
  "collect_globalFilters a [] acc = Inr acc"
| "collect_globalFilters a ((key, short, ty, dflt) # rest) acc =
     (if isFlagSet a key \<and> ty = kBoolean then
        (case flagArgumentBool a key of
           Inl e \<Rightarrow> Inl e
         | Inr b \<Rightarrow> collect_globalFilters a rest (AList.update key (PBool b) acc))
      else collect_globalFilters a rest acc)"

text \<open>The end of \<^verbatim>\<open>doIt\<close>; \<open>result\<close> is what \<^verbatim>\<open>setResult\<close> was given.\<close>

definition doIt_callback :: "host \<Rightarrow> pyval option \<Rightarrow> state \<Rightarrow> pyval option res" where
  "doIt_callback h result st =
     (if messageIdSet st then Returns result st
      else bind (createCallback h st) (\<lambda>ident st'. Returns result (st'\<lparr>messageId := ident\<rparr>)))"

definition doIt_query :: "host \<Rightarrow> argData \<Rightarrow> string \<Rightarrow> state \<Rightarrow> pyval option res" where
  "doIt_query h a nm st =
     (case reporters_getitem st nm of
        Inl e \<Rightarrow> Raises e st
      | Inr self \<Rightarrow>
          (case find (\<lambda>(key, d). isFlagSet a key) filterFlags of
             Some (key, d) \<Rightarrow>
               (case filters (self_at st self) key of
                  None \<Rightarrow> Raises KeyError st
                | Some v \<Rightarrow> Returns (Some v) st)
           | None \<Rightarrow>
               (case find (\<lambda>(key, d). isFlagSet a key) globalFilterFlags of
                  Some (key, d) \<Rightarrow>
                    bind (getGlobalFilter self key st) (\<lambda>v st'. Returns (Some v) st')
                | None \<Rightarrow>
                    doIt_callback h
                      (if isFlagSet a (fst kCmdReporter) then Some (cmdReporter st) else None) st)))"

definition doIt_edit ::
  "callback \<Rightarrow> host \<Rightarrow> argData \<Rightarrow> string \<Rightarrow> (string \<times> pyval) list \<Rightarrow> (string \<times> pyval) list \<Rightarrow>
   state \<Rightarrow> pyval option res" where
  "doIt_edit cb h a nm flt gflt st =
     (case reporters_getitem st nm of
        Inl e \<Rightarrow> Raises e st
      | Inr self \<Rightarrow>
          bind (if flt \<noteq> [] then setFilters cb h self flt st else Returns () st) (\<lambda>u st1.
          bind (if gflt \<noteq> [] then setGlobalFilters cb h self gflt st1 else Returns () st1) (\<lambda>u st2.
          bind (if isFlagSet a (fst kClear) then Reporter_clear cb h self st2
                else if isFlagSet a (fst kText) then
                  (case flagArgumentString a (fst kText) of
                     Inl e \<Rightarrow> Raises e st2
                   | Inr t \<Rightarrow> Reporter_text cb h self t st2)
                else if isFlagSet a (fst kCmdReporter) then
                  (case flagArgumentString a (fst kCmdReporter) of
                     Inl e \<Rightarrow> Raises e st2
                   | Inr c \<Rightarrow> addCmdReporter self c st2)
                else Returns () st2) (\<lambda>u st3.
          doIt_callback h (Some (PStr (name (self_at st3 self)))) st3))))"

definition doIt_create ::
  "callback \<Rightarrow> host \<Rightarrow> string \<Rightarrow> (string \<times> pyval) list \<Rightarrow> state \<Rightarrow> pyval option res" where
  "doIt_create cb h nm flt st =
     bind (Reporter_init cb h (Some nm) flt st) (\<lambda>r st1.
       doIt_callback h (Some (PStr (name r)))
         (st1\<lparr>reporters := AList.update (name r) r (reporters st1)\<rparr>))"

definition doIt :: "callback \<Rightarrow> host \<Rightarrow> argData \<Rightarrow> state \<Rightarrow> pyval option res" where
  "doIt cb h a st =
     (let nm = (case commandArgumentString a of None \<Rightarrow> kPluginCmdName | Some s \<Rightarrow> s) in
      if isQuery a then doIt_query h a nm st
      else
        (case collect_filters a filterFlags [] of
           Inl e \<Rightarrow> Raises e st
         | Inr flt \<Rightarrow>
             (case collect_globalFilters a globalFilterFlags [] of
                Inl e \<Rightarrow> Raises e st
              | Inr gflt \<Rightarrow>
                  if isEdit a then doIt_edit cb h a nm flt gflt st
                  else doIt_create cb h nm flt st)))"

text \<open>The module as it is when it has been loaded, with no reporter yet.\<close>

definition initial :: state where
  "initial =
     \<lparr>callbackState = True, sourceType = None, messageId = 0, messageIdSet = False,
      reporters = [], cmdReporter = PNone,
      globalFilters = [''echoAllCommands'' \<mapsto> PBool False, ''lineNumbers'' \<mapsto> PBool False,
                       ''stackTrace'' \<mapsto> PBool False],
      executed = [], callbacks = [], commandOutput = [], stderr = []\<rparr>"

text \<open>A session: the invocations of the command, one after the other.\<close>

fun run :: "nat \<Rightarrow> host \<Rightarrow> argData list \<Rightarrow> state \<Rightarrow> state option" where
  "run n h [] st = Some st"
| "run n h (a # rest) st =
     (case final (doIt (cmdCallback n h) h a st) of
        None \<Rightarrow> None
      | Some st' \<Rightarrow> run n h rest st')"

section \<open>A sample host and a sample state\<close>

text \<open>
  A host whose commands all succeed and put out one result message each, with the
  message types numbered as in the host's enumeration, and a state with one reporter
  and the callback installed.
\<close>

definition example_host :: host where
  "example_host =
     \<lparr>emits = (\<lambda>st cmd. [(''1'', 5)]),
      fails = (\<lambda>st cmd. False),
      stringResult = (\<lambda>st cmd. ''window1|pane1|reporter1''),
      addCommandOutputCallback = (\<lambda>st. Some 1),
      encodeString = (\<lambda>s. s),
      mel2pyStr = (\<lambda>s. Some (''py '' @ s)),
      messageTypes = \<lparr>kHistory = 0, kInfo = 2, kWarning = 3, kError = 4, kResult = 5\<rparr>\<rparr>"

definition example_reporter :: reporter where
  "example_reporter = \<lparr>name = ''reporter1'', filters = default_filters, history = []\<rparr>"

definition example_state :: state where
  "example_state =
     initial\<lparr>reporters := [(''window1|pane1|reporter1'', example_reporter)],
             callbacks := [1], messageIdSet := True\<rparr>"

section \<open>The installed callbacks\<close>

text \<open>
  The flag \<open>messageIdSet\<close> and the callbacks installed at the host agree: one
  callback when the flag is set, none when it is not.
\<close>

definition callbacks_ok :: "state \<Rightarrow> bool" where
  "callbacks_ok st = (if messageIdSet st then length (callbacks st) = 1 else callbacks st = [])"

text \<open>A call ends, and leaves the installed callbacks and the flag as they were.\<close>

definition unchanged :: "'a res \<Rightarrow> state \<Rightarrow> bool" where
  "unchanged r st =
     (case final r of
        None \<Rightarrow> False
      | Some st' \<Rightarrow> callbacks st' = callbacks st \<and> messageIdSet st' = messageIdSet st)"

text \<open>A call ends, and the callbacks and the flag agree after it if they did before.\<close>

definition keeps_ok :: "'a res \<Rightarrow> state \<Rightarrow> bool" where
  "keeps_ok r st =
     (case final r of None \<Rightarrow> False | Some st' \<Rightarrow> callbacks_ok st \<longrightarrow> callbacks_ok st')"

text \<open>Two invocations: one creates a reporter, one edits a filter of it.\<close>

definition example_create :: argData where
  "example_create = \<lparr>commandArgumentString = None, isQuery = False, isEdit = False, flags = Map.empty\<rparr>"

definition example_edit :: argData where
  "example_edit =
     \<lparr>commandArgumentString = Some ''reporter1'', isQuery = False, isEdit = True,
      flags = [''convertToPython'' \<mapsto> PBool True]\<rparr>"

section \<open>Facts about splitting and joining\<close>

lemma str_split_nonempty: "str_split c s \<noteq> []"
  by (induction s) (auto split: list.splits)

lemma str_split_no_sep: "w \<in> set (str_split c s) \<Longrightarrow> c \<notin> set w"
proof (induction s arbitrary: w)
  case Nil
  then show ?case by simp
next
  case (Cons x xs)
  show ?case
  proof (cases "x = c")
    case True
    with Cons show ?thesis by auto
  next
    case False
    obtain v vs where vs: "str_split c xs = v # vs"
      using str_split_nonempty [of c xs] by (cases "str_split c xs") auto
    with Cons.prems False have "w = x # v \<or> w \<in> set vs" by auto
    then show ?thesis
    proof
      assume "w = x # v"
      moreover have "c \<notin> set v" using Cons.IH [of v] vs by simp
      ultimately show ?thesis using False by auto
    next
      assume "w \<in> set vs"
      then show ?thesis using Cons.IH [of w] vs by simp
    qed
  qed
qed

lemma str_split_id: "c \<notin> set s \<Longrightarrow> str_split c s = [s]"
  by (induction s) auto

lemma str_split_append_sep:
  "c \<notin> set x \<Longrightarrow> str_split c (x @ c # s) = x # str_split c s"
  by (induction x) auto

lemma str_split_join:
  "xs \<noteq> [] \<Longrightarrow> \<forall>x\<in>set xs. c \<notin> set x \<Longrightarrow> str_split c (str_join [c] xs) = xs"
proof (induction "[c]" xs rule: str_join.induct)
  case 1
  then show ?case by simp
next
  case (2 x)
  then show ?case by (simp add: str_split_id)
next
  case (3 x y ys)
  then show ?case by (simp add: str_split_append_sep)
qed

lemma str_join_split: "str_join [c] (str_split c s) = s"
proof (induction s)
  case Nil
  then show ?case by simp
next
  case (Cons x xs)
  obtain v vs where vs: "str_split c xs = v # vs"
    using str_split_nonempty [of c xs] by (cases "str_split c xs") auto
  show ?case
  proof (cases "x = c")
    case True
    with Cons vs show ?thesis by simp
  next
    case False
    with Cons vs show ?thesis by (cases vs) auto
  qed
qed

section \<open>The window in which callbacks are dropped\<close>

lemma cmdCallback_dropped:
  "\<not> callbackState st \<Longrightarrow> cmdCallback (Suc n) h m t st = Returns () st"
  by (simp add: cmdCallback_body_def)

lemma call_callbacks_dropped:
  assumes "\<And>m t s. \<not> callbackState s \<Longrightarrow> cb m t s = Returns () s"
    and "\<not> callbackState st"
  shows "call_callbacks cb ids msg st = Returns () st"
  using assms by (induction ids) auto

lemma deliver_dropped:
  assumes "\<And>m t s. \<not> callbackState s \<Longrightarrow> cb m t s = Returns () s"
    and "\<not> callbackState st"
  shows "deliver cb msgs st = Returns () st"
  using assms by (induction msgs) (auto simp: call_callbacks_dropped)

lemma host_execute_window:
  assumes "\<And>m t s. \<not> callbackState s \<Longrightarrow> cb m t s = Returns () s"
    and "\<not> callbackState st"
  shows "host_execute cb h cmd st =
           (if fails h st cmd then Raises RuntimeError (st\<lparr>executed := executed st @ [cmd]\<rparr>)
            else Returns (stringResult h st cmd) (st\<lparr>executed := executed st @ [cmd]\<rparr>))"
  using assms by (simp add: host_execute_def deliver_dropped)

lemma executeCommand_eq:
  assumes "\<And>m t s. \<not> callbackState s \<Longrightarrow> cb m t s = Returns () s"
  shows "executeCommand cb h cmd st =
           (if fails h (st\<lparr>callbackState := False\<rparr>) cmd
            then Raises RuntimeError (st\<lparr>callbackState := False, executed := executed st @ [cmd]\<rparr>)
            else Returns () (st\<lparr>callbackState := True, executed := executed st @ [cmd]\<rparr>))"
  using assms by (simp add: executeCommand_def host_execute_window)

lemma executeCommandResult_eq:
  assumes "\<And>m t s. \<not> callbackState s \<Longrightarrow> cb m t s = Returns () s"
  shows "executeCommandResult cb h cmd st =
           (if fails h (st\<lparr>callbackState := False\<rparr>) cmd
            then Raises RuntimeError (st\<lparr>callbackState := False, executed := executed st @ [cmd]\<rparr>)
            else Returns (stringResult h (st\<lparr>callbackState := False\<rparr>) cmd)
                   (st\<lparr>callbackState := True, executed := executed st @ [cmd]\<rparr>))"
  using assms by (simp add: executeCommandResult_def host_execute_window)

text \<open>
  There is no \<^verbatim>\<open>try ... finally\<close> around the host's command: when it raises,
  the exception leaves \<^verbatim>\<open>executeCommand\<close> with \<open>callbackState\<close> still false.
\<close>

lemma executeCommand_fails:
  assumes "fails h (st\<lparr>callbackState := False\<rparr>) cmd"
  shows "executeCommand (cmdCallback (Suc n) h) h cmd st =
           Raises RuntimeError (st\<lparr>callbackState := False, executed := executed st @ [cmd]\<rparr>)"
  using assms by (simp add: executeCommand_eq [OF cmdCallback_dropped])

text \<open>
  C8. While \<^verbatim>\<open>executeCommand\<close> or \<^verbatim>\<open>executeCommandResult\<close> has the host run a
  command of the reporter, \<open>callbackState\<close> is false: a call of \<^verbatim>\<open>cmdCallback\<close>
  in such a state returns at once and leaves the state as it is, and so does the
  delivery of any list of messages. When the command does not fail, the call therefore
  ends in the state it started from with the command added to those executed and
  \<open>callbackState\<close> true again: whatever the host put out while the command ran, no
  history has changed and no further command was issued.
\<close>

theorem callbackState_window:
  "(\<not> callbackState s \<longrightarrow>
      cmdCallback (Suc n) h m t s = Returns () s \<and>
      deliver (cmdCallback (Suc n) h) msgs s = Returns () s)
   \<and> (\<not> fails h (st\<lparr>callbackState := False\<rparr>) cmd \<longrightarrow>
        executeCommand (cmdCallback (Suc n) h) h cmd st =
          Returns () (st\<lparr>callbackState := True, executed := executed st @ [cmd]\<rparr>) \<and>
        executeCommandResult (cmdCallback (Suc n) h) h cmd st =
          Returns (stringResult h (st\<lparr>callbackState := False\<rparr>) cmd)
            (st\<lparr>callbackState := True, executed := executed st @ [cmd]\<rparr>))"
proof -
  have d: "\<And>m t s. \<not> callbackState s \<Longrightarrow> cmdCallback (Suc n) h m t s = Returns () s"
    by (rule cmdCallback_dropped)
  show ?thesis
    using d
    by (simp add: deliver_dropped [OF d] executeCommand_eq [OF d] executeCommandResult_eq [OF d])
qed

theorem callbackState_window_witness:
  "\<not> callbackState (example_state\<lparr>callbackState := False\<rparr>)
   \<and> cmdCallback 1 example_host ''1'' 5 (example_state\<lparr>callbackState := False\<rparr>) =
       Returns () (example_state\<lparr>callbackState := False\<rparr>)
   \<and> \<not> fails example_host (example_state\<lparr>callbackState := False\<rparr>) ''scrollField -e -clear x;''
   \<and> emits example_host (example_state\<lparr>callbackState := False\<rparr>) ''scrollField -e -clear x;'' =
       [(''1'', 5)]
   \<and> executeCommand (cmdCallback 1 example_host) example_host ''scrollField -e -clear x;''
         example_state =
       Returns () (example_state\<lparr>executed := [''scrollField -e -clear x;'']\<rparr>)"
  using callbackState_window [of "example_state\<lparr>callbackState := False\<rparr>" 0 example_host
      "''1''" 5 "[]" example_state "''scrollField -e -clear x;''"]
  by (simp add: example_host_def example_state_def initial_def)

section \<open>Reporter.appendHistory\<close>

lemma self_at_update:
  "i < length (reporters st) \<Longrightarrow> self_at (self_update i f st) i = f (self_at st i)"
  by (simp add: self_at_def self_update_def)

lemma self_at_update_other:
  "j \<noteq> i \<Longrightarrow> self_at (self_update i f st) j = self_at st j"
  by (simp add: self_at_def self_update_def)

lemma lineFilter_cong:
  assumes "filters r' = filters r"
  shows "lineFilter r' ln = lineFilter r ln"
  unfolding lineFilter_def assms ..

lemma lineFilter_history:
  "lineFilter (r\<lparr>history := hs\<rparr>) ln = lineFilter r ln"
  by (rule lineFilter_cong) simp

lemma appendHistory_suppressed:
  assumes "self < length (reporters st)"
    and "lineFilter (self_at st self) ln = Inr None"
  shows "appendHistory cb h self ln st =
           Returns () (self_update self (\<lambda>r. r\<lparr>history := history r @ [ln]\<rparr>) st)"
  using assms by (simp add: appendHistory_def Let_def self_at_update lineFilter_history)

lemma appendHistory_raises:
  assumes "self < length (reporters st)"
    and "lineFilter (self_at st self) ln = Inl e"
  shows "appendHistory cb h self ln st =
           Raises e (self_update self (\<lambda>r. r\<lparr>history := history r @ [ln]\<rparr>) st)"
  using assms by (simp add: appendHistory_def Let_def self_at_update lineFilter_history)

lemma appendHistory_shown:
  assumes "self < length (reporters st)"
    and "lineFilter (self_at st self) ln = Inr (Some out)"
  shows \<open>appendHistory cb h self ln st =
     executeCommand cb h
       (''scrollField -e -insertText "'' @ out @ ''" "'' @ name (self_at st self) @ ''";'')
       (self_update self (\<lambda>r. r\<lparr>history := history r @ [ln]\<rparr>) st)\<close>
  using assms by (simp add: appendHistory_def Let_def self_at_update lineFilter_history)

text \<open>
  C7. When the line passes the filters of the reporter, \<^verbatim>\<open>appendHistory\<close> has the
  host execute exactly one command, the \<^verbatim>\<open>scrollField -e -insertText\<close> command
  with the filtered text and the reporter's name. When the line is suppressed, no
  command is executed and the call returns in the state it started from with the line
  added to the reporter's history.
\<close>

theorem appendHistory_widget:
  assumes "self < length (reporters st)"
  shows \<open>(lineFilter (self_at st self) ln = Inr (Some out) \<longrightarrow>
            (\<exists>st'. final (appendHistory (cmdCallback (Suc n) h) h self ln st) = Some st' \<and>
               executed st' = executed st @
                 [''scrollField -e -insertText "'' @ out @ ''" "'' @ name (self_at st self) @ ''";'']))
       \<and> (lineFilter (self_at st self) ln = Inr None \<longrightarrow>
            appendHistory (cmdCallback (Suc n) h) h self ln st =
              Returns ()
                (st\<lparr>reporters := (reporters st)
                   [self := (fst (reporters st ! self),
                             (self_at st self)\<lparr>history := history (self_at st self) @ [ln]\<rparr>)]\<rparr>))\<close>
proof -
  have d: "\<And>m t s. \<not> callbackState s \<Longrightarrow> cmdCallback (Suc n) h m t s = Returns () s"
    by (rule cmdCallback_dropped)
  show ?thesis
    using assms
    by (auto simp: appendHistory_shown appendHistory_suppressed executeCommand_eq [OF d]
        self_at_update self_update_def self_at_def)
qed

theorem appendHistory_widget_witness:
  \<open>(0::nat) < length (reporters example_state)
   \<and> lineFilter (self_at example_state 0) (0, Some ''mel'', ''sphere;'', Some ''sphere()'') = Inr (Some ''sphere;'')
   \<and> (\<exists>st'. final (appendHistory (cmdCallback 1 example_host) example_host 0
                 (0, Some ''mel'', ''sphere;'', Some ''sphere()'') example_state) = Some st' \<and>
             executed st' = [''scrollField -e -insertText "sphere;" "reporter1";''])
   \<and> lineFilter (self_at (self_update 0 (\<lambda>r. r\<lparr>filters := (filters r)(''filterSourceType'' \<mapsto> PStr ''python'')\<rparr>) example_state) 0)
        (0, Some ''mel'', ''sphere;'', Some ''sphere()'') = Inr None
   \<and> (\<exists>st'. final (appendHistory (cmdCallback 1 example_host) example_host 0
                 (0, Some ''mel'', ''sphere;'', Some ''sphere()'')
                 (self_update 0 (\<lambda>r. r\<lparr>filters := (filters r)(''filterSourceType'' \<mapsto> PStr ''python'')\<rparr>) example_state)) = Some st' \<and>
             executed st' = [] \<and> history (self_at st' 0) = [(0, Some ''mel'', ''sphere;'', Some ''sphere()'')])\<close>
  using appendHistory_widget [of 0 example_state "(0, Some ''mel'', ''sphere;'', Some ''sphere()'')" "''sphere;''" 0 example_host]
    appendHistory_widget [of 0 "self_update 0 (\<lambda>r. r\<lparr>filters := (filters r)(''filterSourceType'' \<mapsto> PStr ''python'')\<rparr>) example_state" "(0, Some ''mel'', ''sphere;'', Some ''sphere()'')" "''sphere;''" 0 example_host]
  by (simp add: example_state_def example_reporter_def initial_def self_at_def self_update_def
      lineFilter_def default_filters_def py_index_def filterFlagNames_def)

text \<open>
  C4. \<^verbatim>\<open>appendHistory\<close> always ends, and however it ends (the line shown, the line
  suppressed, an exception of \<open>lineFilter\<close> or of the host) the history of the
  reporter is the old history followed by the new line; the dictionary keeps its
  length and the histories of the other reporters are what they were.
\<close>

theorem appendHistory_appends:
  assumes "self < length (reporters st)"
  shows "\<exists>st'. final (appendHistory (cmdCallback (Suc n) h) h self ln st) = Some st'
          \<and> history (self_at st' self) = history (self_at st self) @ [ln]
          \<and> length (reporters st') = length (reporters st)
          \<and> (\<forall>j<length (reporters st). j \<noteq> self \<longrightarrow>
                history (self_at st' j) = history (self_at st j))"
proof -
  have d: "\<And>m t s. \<not> callbackState s \<Longrightarrow> cmdCallback (Suc n) h m t s = Returns () s"
    by (rule cmdCallback_dropped)
  let ?st1 = "self_update self (\<lambda>r. r\<lparr>history := history r @ [ln]\<rparr>) st"
  have h1: "history (self_at ?st1 self) = history (self_at st self) @ [ln]"
    using assms by (simp add: self_at_update)
  have h2: "\<And>j. j \<noteq> self \<Longrightarrow> history (self_at ?st1 j) = history (self_at st j)"
    by (simp add: self_at_update_other)
  have h3: "length (reporters ?st1) = length (reporters st)"
    by (simp add: self_update_def)
  have s: "\<And>f g. self_at (?st1\<lparr>callbackState := f, executed := g\<rparr>) = self_at ?st1"
    by (simp add: self_at_def fun_eq_iff)
  show ?thesis
  proof (cases "lineFilter (self_at st self) ln")
    case (Inl e)
    then show ?thesis
      using assms h1 h2 h3 by (simp add: appendHistory_raises)
  next
    case (Inr out)
    show ?thesis
    proof (cases out)
      case None
      with Inr show ?thesis
        using assms h1 h2 h3 by (simp add: appendHistory_suppressed)
    next
      case (Some shown)
      with Inr show ?thesis
        using assms h1 h2 h3 s
        by (simp add: appendHistory_shown executeCommand_eq [OF d])
    qed
  qed
qed

lemma py_index_filterFlagNames:
  "- 7 \<le> i \<Longrightarrow> i < 7 \<Longrightarrow> \<exists>flag. py_index filterFlagNames i = Inr flag"
  by (simp add: py_index_def filterFlagNames_def)

theorem appendHistory_appends_witness:
  "(0::nat) < length (reporters example_state)
   \<and> (\<exists>st'. final (appendHistory (cmdCallback 1 example_host) example_host 0
                 (0, Some ''mel'', ''sphere;'', Some ''sphere()'') example_state) = Some st'
          \<and> history (self_at st' 0) = [(0, Some ''mel'', ''sphere;'', Some ''sphere()'')])"
  using appendHistory_appends [of 0 example_state 0 example_host
      "(0, Some ''mel'', ''sphere;'', Some ''sphere()'')"]
  by (auto simp: example_state_def example_reporter_def initial_def self_at_def)

section \<open>Reporter.lineFilter\<close>

text \<open>
  C3. For a reporter whose filters hold \<^verbatim>\<open>filterSourceType\<close> and
  \<^verbatim>\<open>convertToPython\<close> (as \<^verbatim>\<open>__init__\<close> sets them) and a message type that
  indexes \<open>filterFlagNames\<close>, with \<open>flag\<close> the name found there: the line is
  suppressed (the result is None) exactly when \<^verbatim>\<open>filterSourceType\<close> is non-empty
  and differs from the line's source type, or the filter named \<open>flag\<close> is set;
  otherwise the result is the converted message when \<^verbatim>\<open>convertToPython\<close> is set and
  there is a converted message, and the native message if not.
\<close>

theorem lineFilter_cases:
  assumes "filters self ''filterSourceType'' = Some filterSourceType"
    and "filters self ''convertToPython'' = Some convertToPython"
    and "py_index filterFlagNames messageType = Inr flag"
  shows "lineFilter self (messageType, srcType, nativeMsg, convertedMsg) =
           (if (truthy filterSourceType \<and> \<not> py_eq filterSourceType srcType)
               \<or> (\<exists>v. filters self flag = Some v \<and> truthy v)
            then Inr None
            else if truthy convertToPython \<and> convertedMsg \<noteq> None then Inr convertedMsg
            else Inr (Some nativeMsg))
         \<and> (lineFilter self (messageType, srcType, nativeMsg, convertedMsg) = Inr None \<longleftrightarrow>
              (truthy filterSourceType \<and> \<not> py_eq filterSourceType srcType)
               \<or> (\<exists>v. filters self flag = Some v \<and> truthy v))"
  using assms by (auto simp: lineFilter_def split: option.splits)

theorem lineFilter_cases_witness:
  "filters example_reporter ''filterSourceType'' = Some (PStr [])
   \<and> filters example_reporter ''convertToPython'' = Some (PBool False)
   \<and> py_index filterFlagNames 5 = Inr ''suppressResults''
   \<and> lineFilter example_reporter (5, Some ''mel'', ''// Result: 1 //'', Some ''# Result: 1 #'') =
        Inr (Some ''// Result: 1 //'')
   \<and> lineFilter (example_reporter\<lparr>filters := (filters example_reporter)(''convertToPython'' \<mapsto> PBool True)\<rparr>)
        (5, Some ''mel'', ''// Result: 1 //'', Some ''# Result: 1 #'') = Inr (Some ''# Result: 1 #'')
   \<and> lineFilter (example_reporter\<lparr>filters := (filters example_reporter)(''suppressResults'' \<mapsto> PBool True)\<rparr>)
        (5, Some ''mel'', ''// Result: 1 //'', Some ''# Result: 1 #'') = Inr None
   \<and> lineFilter (example_reporter\<lparr>filters := (filters example_reporter)(''filterSourceType'' \<mapsto> PStr ''python'')\<rparr>)
        (5, Some ''mel'', ''// Result: 1 //'', Some ''# Result: 1 #'') = Inr None"
  using lineFilter_cases [of example_reporter "PStr []" "PBool False" 5 "''suppressResults''"
          "Some ''mel''" "''// Result: 1 //''" "Some ''# Result: 1 #''"]
    lineFilter_cases [of "example_reporter\<lparr>filters := (filters example_reporter)(''convertToPython'' \<mapsto> PBool True)\<rparr>"
          "PStr []" "PBool True" 5 "''suppressResults''"
          "Some ''mel''" "''// Result: 1 //''" "Some ''# Result: 1 #''"]
    lineFilter_cases [of "example_reporter\<lparr>filters := (filters example_reporter)(''suppressResults'' \<mapsto> PBool True)\<rparr>"
          "PStr []" "PBool False" 5 "''suppressResults''"
          "Some ''mel''" "''// Result: 1 //''" "Some ''# Result: 1 #''"]
    lineFilter_cases [of "example_reporter\<lparr>filters := (filters example_reporter)(''filterSourceType'' \<mapsto> PStr ''python'')\<rparr>"
          "PStr ''python''" "PBool False" 5 "''suppressResults''"
          "Some ''mel''" "''// Result: 1 //''" "Some ''# Result: 1 #''"]
  by (simp add: example_reporter_def default_filters_def py_index_def filterFlagNames_def)

section \<open>ReporterDict.__getitem__\<close>

lemma slice_is_suffix:
  assumes "lookupBuf \<noteq> []"
  shows "py_slice_from keyBuf (- int (length lookupBuf)) = lookupBuf \<longleftrightarrow> suffix lookupBuf keyBuf"
proof
  assume "py_slice_from keyBuf (- int (length lookupBuf)) = lookupBuf"
  then have "drop (nat (max 0 (int (length keyBuf) - int (length lookupBuf)))) keyBuf = lookupBuf"
    using assms by (simp add: py_slice_from_def)
  then show "suffix lookupBuf keyBuf"
    by (metis suffix_drop)
next
  assume "suffix lookupBuf keyBuf"
  then obtain zs where "keyBuf = zs @ lookupBuf"
    by (auto simp: suffix_def)
  then show "py_slice_from keyBuf (- int (length lookupBuf)) = lookupBuf"
    using assms by (simp add: py_slice_from_def)
qed

lemma ReporterDict_getitem_find:
  "ReporterDict_getitem d lookupName =
     (case find (\<lambda>(key, val). suffix (str_split (CHR ''|'') lookupName) (str_split (CHR ''|'') key)) d of
        None \<Rightarrow> Inl KeyError
      | Some (key, val) \<Rightarrow> Inr val)"
  by (induction d) (auto simp: Let_def slice_is_suffix str_split_nonempty)

lemma suffix_last_component:
  "suffix (str_split c (last (str_split c key))) (str_split c key)"
proof -
  have ne: "str_split c key \<noteq> []" by (rule str_split_nonempty)
  then have "last (str_split c key) \<in> set (str_split c key)" by simp
  then have "c \<notin> set (last (str_split c key))" by (rule str_split_no_sep)
  then have "str_split c (last (str_split c key)) = [last (str_split c key)]"
    by (rule str_split_id)
  moreover have "suffix [last (str_split c key)] (str_split c key)"
    using ne by (metis append_butlast_last_id suffix_def)
  ultimately show ?thesis by simp
qed

text \<open>
  C9. \<^verbatim>\<open>__getitem__\<close> returns the value of the first item whose key, split at
  \<^verbatim>\<open>'|'\<close>, ends with the components of the lookup name; it raises KeyError exactly
  when no key does; and the last component of any stored key finds a value.
\<close>

theorem ReporterDict_getitem_suffix:
  "ReporterDict_getitem d lookupName =
     (case find (\<lambda>(key, val). suffix (str_split (CHR ''|'') lookupName) (str_split (CHR ''|'') key)) d of
        None \<Rightarrow> Inl KeyError
      | Some (key, val) \<Rightarrow> Inr val)
   \<and> (ReporterDict_getitem d lookupName = Inl KeyError \<longleftrightarrow>
        (\<forall>key\<in>fst ` set d. \<not> suffix (str_split (CHR ''|'') lookupName) (str_split (CHR ''|'') key)))
   \<and> ((key, val) \<in> set d \<longrightarrow>
        (\<exists>v. ReporterDict_getitem d (last (str_split (CHR ''|'') key)) = Inr v))"
proof (intro conjI impI)
  show "ReporterDict_getitem d lookupName =
     (case find (\<lambda>(key, val). suffix (str_split (CHR ''|'') lookupName) (str_split (CHR ''|'') key)) d of
        None \<Rightarrow> Inl KeyError
      | Some (key, val) \<Rightarrow> Inr val)"
    by (rule ReporterDict_getitem_find)
  have iff: "find (\<lambda>(key, val). suffix (str_split (CHR ''|'') lookupName) (str_split (CHR ''|'') key)) d = None \<longleftrightarrow>
        (\<forall>key\<in>fst ` set d. \<not> suffix (str_split (CHR ''|'') lookupName) (str_split (CHR ''|'') key))"
    by (force simp: find_None_iff)
  show "ReporterDict_getitem d lookupName = Inl KeyError \<longleftrightarrow>
        (\<forall>key\<in>fst ` set d. \<not> suffix (str_split (CHR ''|'') lookupName) (str_split (CHR ''|'') key))"
    unfolding iff [symmetric]
    by (simp add: ReporterDict_getitem_find split: option.splits prod.splits)
  assume "(key, val) \<in> set d"
  then have "find (\<lambda>(k, v). suffix (str_split (CHR ''|'') (last (str_split (CHR ''|'') key)))
                (str_split (CHR ''|'') k)) d \<noteq> None"
    using suffix_last_component [of "CHR ''|''" key] by (auto simp: find_None_iff)
  then show "\<exists>v. ReporterDict_getitem d (last (str_split (CHR ''|'') key)) = Inr v"
    by (auto simp: ReporterDict_getitem_find split: option.splits)
qed

theorem ReporterDict_getitem_suffix_witness:
  "(''window2|reporter1'', 2) \<in> set [(''window1|pane1|reporter1'', 1::nat), (''window2|reporter1'', 2)]
   \<and> (\<exists>v. ReporterDict_getitem [(''window1|pane1|reporter1'', 1::nat), (''window2|reporter1'', 2)]
            (last (str_split (CHR ''|'') ''window2|reporter1'')) = Inr v)"
  using ReporterDict_getitem_suffix [of "[(''window1|pane1|reporter1'', 1::nat), (''window2|reporter1'', 2)]" "''reporter1''" "''window2|reporter1''" 2, THEN conjunct2, THEN conjunct2]
  by simp

lemma ReporterDict_getitem_example:
  "ReporterDict_getitem [(''window1|pane1|reporter1'', 1::nat), (''window2|reporter1'', 2)] ''reporter1'' = Inr 1
   \<and> ReporterDict_getitem [(''window1|pane1|reporter1'', 1::nat), (''window2|reporter1'', 2)] ''window2|reporter1'' = Inr 2
   \<and> ReporterDict_getitem [(''window1|pane1|reporter1'', 1::nat), (''window2|reporter1'', 2)] ''porter1'' = Inl KeyError"
  by (simp add: py_slice_from_def)

section \<open>appendEnv and prependEnv\<close>

lemma appendEnv_again:
  assumes "pathsep \<notin> set v"
    and "appendEnv pathsep putenv environ env v = Inr environ'"
  shows "appendEnv pathsep putenv environ' env v = Inr environ'"
proof (cases "environ env")
  case None
  with assms(2) have "environ' = environ(env \<mapsto> v)"
    by (auto simp: appendEnv_def environ_setitem_def Let_def split: option.splits)
  then show ?thesis
    using assms(1) by (simp add: appendEnv_def str_split_id)
next
  case (Some cur)
  show ?thesis
  proof (cases "v \<in> set (str_split pathsep cur)")
    case True
    with Some assms(2) show ?thesis by (simp add: appendEnv_def)
  next
    case False
    have "\<forall>x\<in>set (str_split pathsep cur @ [v]). pathsep \<notin> set x"
      using assms(1) str_split_no_sep by auto
    then have sj: "str_split pathsep (str_join [pathsep] (str_split pathsep cur @ [v])) =
                 str_split pathsep cur @ [v]"
      by (intro str_split_join) simp_all
    from Some False assms(2)
    have "environ' = environ(env \<mapsto> str_join [pathsep] (str_split pathsep cur @ [v]))"
      by (auto simp: appendEnv_def environ_setitem_def Let_def split: option.splits)
    then show ?thesis
      using sj by (simp add: appendEnv_def)
  qed
qed

lemma prependEnv_again:
  assumes "pathsep \<notin> set v"
    and "prependEnv pathsep putenv environ env v = Inr environ'"
  shows "prependEnv pathsep putenv environ' env v = Inr environ'"
proof (cases "environ env")
  case None
  with assms(2) have "environ' = environ(env \<mapsto> v)"
    by (auto simp: prependEnv_def environ_setitem_def Let_def split: option.splits)
  then show ?thesis
    using assms(1) by (simp add: prependEnv_def str_split_id)
next
  case (Some cur)
  show ?thesis
  proof (cases "v \<in> set (str_split pathsep cur)")
    case True
    with Some assms(2) show ?thesis by (simp add: prependEnv_def)
  next
    case False
    have "\<forall>x\<in>set (v # str_split pathsep cur). pathsep \<notin> set x"
      using assms(1) str_split_no_sep by auto
    then have sj: "str_split pathsep (str_join [pathsep] (v # str_split pathsep cur)) =
                 v # str_split pathsep cur"
      by (intro str_split_join) simp_all
    from Some False assms(2)
    have "environ' = environ(env \<mapsto> str_join [pathsep] (v # str_split pathsep cur))"
      by (auto simp: prependEnv_def environ_setitem_def Let_def split: option.splits)
    then show ?thesis
      using sj by (simp add: prependEnv_def)
  qed
qed

text \<open>
  C10, for a value that does not contain the separator, with the assignment to
  \<^verbatim>\<open>os.environ\<close> as it is: accepted, or refused with an exception. When a call
  of \<^verbatim>\<open>appendEnv\<close> (or \<^verbatim>\<open>prependEnv\<close>) returns, a second call returns too and
  changes nothing. For an unset variable the call is the assignment of the value: the
  variable is set to it when the assignment is accepted, and the call raises, with
  nothing set, when it is refused. A variable that has the value among its components
  is left as it is. Otherwise the call is the assignment of a new setting that splits
  into the old components followed (for \<^verbatim>\<open>prependEnv\<close>: preceded) by the value; no
  other variable changes.
\<close>

theorem appendEnv_prependEnv_idempotent:
  assumes "pathsep \<notin> set v"
  shows "(\<forall>environ'. appendEnv pathsep putenv environ env v = Inr environ' \<longrightarrow>
            appendEnv pathsep putenv environ' env v = Inr environ')
       \<and> (\<forall>environ'. prependEnv pathsep putenv environ env v = Inr environ' \<longrightarrow>
            prependEnv pathsep putenv environ' env v = Inr environ')
       \<and> (environ env = None \<longrightarrow>
            appendEnv pathsep putenv environ env v =
              (case putenv env v of Some e \<Rightarrow> Inl e | None \<Rightarrow> Inr (environ(env \<mapsto> v))) \<and>
            prependEnv pathsep putenv environ env v =
              (case putenv env v of Some e \<Rightarrow> Inl e | None \<Rightarrow> Inr (environ(env \<mapsto> v))))
       \<and> (\<forall>cur. environ env = Some cur \<and> v \<in> set (str_split pathsep cur) \<longrightarrow>
            appendEnv pathsep putenv environ env v = Inr environ \<and>
            prependEnv pathsep putenv environ env v = Inr environ)
       \<and> (\<forall>cur. environ env = Some cur \<and> v \<notin> set (str_split pathsep cur) \<longrightarrow>
            (\<exists>new. str_split pathsep new = str_split pathsep cur @ [v] \<and>
                   appendEnv pathsep putenv environ env v =
                     (case putenv env new of Some e \<Rightarrow> Inl e | None \<Rightarrow> Inr (environ(env \<mapsto> new)))) \<and>
            (\<exists>new. str_split pathsep new = v # str_split pathsep cur \<and>
                   prependEnv pathsep putenv environ env v =
                     (case putenv env new of Some e \<Rightarrow> Inl e | None \<Rightarrow> Inr (environ(env \<mapsto> new)))))"
proof -
  have sj1: "str_split pathsep (str_join [pathsep] (str_split pathsep cur @ [v])) =
          str_split pathsep cur @ [v]" for cur
    using assms str_split_no_sep by (intro str_split_join) auto
  have sj2: "str_split pathsep (str_join [pathsep] (v # str_split pathsep cur)) =
          v # str_split pathsep cur" for cur
    using assms str_split_no_sep by (intro str_split_join) auto
  have again: "\<forall>environ'. appendEnv pathsep putenv environ env v = Inr environ' \<longrightarrow>
            appendEnv pathsep putenv environ' env v = Inr environ'"
    "\<forall>environ'. prependEnv pathsep putenv environ env v = Inr environ' \<longrightarrow>
            prependEnv pathsep putenv environ' env v = Inr environ'"
    using appendEnv_again [OF assms] prependEnv_again [OF assms] by blast+
  have unset: "environ env = None \<longrightarrow>
            appendEnv pathsep putenv environ env v =
              (case putenv env v of Some e \<Rightarrow> Inl e | None \<Rightarrow> Inr (environ(env \<mapsto> v))) \<and>
            prependEnv pathsep putenv environ env v =
              (case putenv env v of Some e \<Rightarrow> Inl e | None \<Rightarrow> Inr (environ(env \<mapsto> v)))"
    by (simp add: appendEnv_def prependEnv_def environ_setitem_def)
  have present: "\<forall>cur. environ env = Some cur \<and> v \<in> set (str_split pathsep cur) \<longrightarrow>
            appendEnv pathsep putenv environ env v = Inr environ \<and>
            prependEnv pathsep putenv environ env v = Inr environ"
    by (simp add: appendEnv_def prependEnv_def)
  have absent: "\<forall>cur. environ env = Some cur \<and> v \<notin> set (str_split pathsep cur) \<longrightarrow>
            (\<exists>new. str_split pathsep new = str_split pathsep cur @ [v] \<and>
                   appendEnv pathsep putenv environ env v =
                     (case putenv env new of Some e \<Rightarrow> Inl e | None \<Rightarrow> Inr (environ(env \<mapsto> new)))) \<and>
            (\<exists>new. str_split pathsep new = v # str_split pathsep cur \<and>
                   prependEnv pathsep putenv environ env v =
                     (case putenv env new of Some e \<Rightarrow> Inl e | None \<Rightarrow> Inr (environ(env \<mapsto> new))))"
  proof (intro allI impI conjI)
    fix cur
    assume a: "environ env = Some cur \<and> v \<notin> set (str_split pathsep cur)"
    show "\<exists>new. str_split pathsep new = str_split pathsep cur @ [v] \<and>
                   appendEnv pathsep putenv environ env v =
                     (case putenv env new of Some e \<Rightarrow> Inl e | None \<Rightarrow> Inr (environ(env \<mapsto> new)))"
      using a sj1 [of cur]
      by (intro exI [of _ "str_join [pathsep] (str_split pathsep cur @ [v])"])
         (simp add: appendEnv_def environ_setitem_def Let_def)
    show "\<exists>new. str_split pathsep new = v # str_split pathsep cur \<and>
                   prependEnv pathsep putenv environ env v =
                     (case putenv env new of Some e \<Rightarrow> Inl e | None \<Rightarrow> Inr (environ(env \<mapsto> new)))"
      using a sj2 [of cur]
      by (intro exI [of _ "str_join [pathsep] (v # str_split pathsep cur)"])
         (simp add: prependEnv_def environ_setitem_def Let_def)
  qed
  from again unset present absent show ?thesis by blast
qed

theorem appendEnv_prependEnv_idempotent_witness:
  "CHR '':'' \<notin> set ''/opt/bin''
   \<and> appendEnv (CHR '':'') example_putenv [''PATH'' \<mapsto> ''/bin:/usr/bin''] ''PATH'' ''/opt/bin'' =
       Inr [''PATH'' \<mapsto> ''/bin:/usr/bin:/opt/bin'']
   \<and> appendEnv (CHR '':'') example_putenv [''PATH'' \<mapsto> ''/bin:/usr/bin:/opt/bin''] ''PATH'' ''/opt/bin'' =
       Inr [''PATH'' \<mapsto> ''/bin:/usr/bin:/opt/bin'']
   \<and> prependEnv (CHR '':'') example_putenv [''PATH'' \<mapsto> ''/bin:/usr/bin''] ''PATH'' ''/opt/bin'' =
       Inr [''PATH'' \<mapsto> ''/opt/bin:/bin:/usr/bin'']
   \<and> prependEnv (CHR '':'') example_putenv [''PATH'' \<mapsto> ''/opt/bin:/bin:/usr/bin''] ''PATH'' ''/opt/bin'' =
       Inr [''PATH'' \<mapsto> ''/opt/bin:/bin:/usr/bin'']
   \<and> appendEnv (CHR '':'') example_putenv Map.empty ''PATH'' ''/opt/bin'' =
       Inr [''PATH'' \<mapsto> ''/opt/bin'']
   \<and> CHR '':'' \<notin> set [CHR 0x00]
   \<and> appendEnv (CHR '':'') example_putenv Map.empty ''PATH'' [CHR 0x00] = Inl TypeError
   \<and> prependEnv (CHR '':'') example_putenv Map.empty ''PATH'' [CHR 0x00] = Inl TypeError"
  using appendEnv_prependEnv_idempotent [of "CHR '':''" "''/opt/bin''" example_putenv
      "[''PATH'' \<mapsto> ''/bin:/usr/bin'']" "''PATH''"]
    appendEnv_prependEnv_idempotent [of "CHR '':''" "''/opt/bin''" example_putenv
      Map.empty "''PATH''", THEN conjunct2, THEN conjunct2, THEN conjunct1]
    appendEnv_prependEnv_idempotent [of "CHR '':''" "[CHR 0x00]" example_putenv
      Map.empty "''PATH''", THEN conjunct2, THEN conjunct2, THEN conjunct1]
  by (simp add: appendEnv_def prependEnv_def environ_setitem_def example_putenv_def Let_def)

text \<open>
  C10 as stated, for every value, fails: a value that contains the separator is not
  one of the components after it has been stored, and a second call, which returns,
  adds it again.
\<close>

theorem appendEnv_not_idempotent:
  "appendEnv (CHR '':'') example_putenv Map.empty ''PATH'' ''/a:/b'' = Inr [''PATH'' \<mapsto> ''/a:/b'']
   \<and> appendEnv (CHR '':'') example_putenv [''PATH'' \<mapsto> ''/a:/b''] ''PATH'' ''/a:/b'' =
       Inr [''PATH'' \<mapsto> ''/a:/b:/a:/b'']
   \<and> [''PATH'' \<mapsto> ''/a:/b:/a:/b''] ''PATH'' \<noteq> [''PATH'' \<mapsto> ''/a:/b''] ''PATH''"
  by (simp add: appendEnv_def environ_setitem_def example_putenv_def Let_def)

section \<open>cmdCallback\<close>

lemma classify_frame:
  "callbackState (fst (classify h nativeMsg messageType st)) = callbackState st"
  "reporters (fst (classify h nativeMsg messageType st)) = reporters st"
  "executed (fst (classify h nativeMsg messageType st)) = executed st"
  "callbacks (fst (classify h nativeMsg messageType st)) = callbacks st"
  "messageIdSet (fst (classify h nativeMsg messageType st)) = messageIdSet st"
  "fst (snd (classify h nativeMsg messageType st)) = messageType"
  by (simp_all add: classify_def Let_def split: option.splits)

lemma lineFilter_returns:
  assumes "filters r ''filterSourceType'' \<noteq> None"
    and "filters r ''convertToPython'' \<noteq> None"
    and "- 7 \<le> fst ln" and "fst ln < 7"
  shows "\<exists>out. lineFilter r ln = Inr out"
proof -
  obtain flag where "py_index filterFlagNames (fst ln) = Inr flag"
    using py_index_filterFlagNames [OF assms(3,4)] by blast
  then show ?thesis
    using assms(1,2) by (cases ln) (auto simp: lineFilter_def)
qed

lemma appendHistory_step:
  assumes d: "\<And>m t s. \<not> callbackState s \<Longrightarrow> cb m t s = Returns () s"
    and nofail: "\<And>s c. \<not> fails h s c"
    and i: "i < length (reporters st)"
    and ok: "lineFilter (self_at st i) ln = Inr out"
    and cs: "callbackState st"
  shows "\<exists>st'. appendHistory cb h i ln st = Returns () st' \<and> callbackState st' \<and>
           reporters st' =
             (reporters st)[i := (fst (reporters st ! i),
                                  (snd (reporters st ! i))\<lparr>history := history (snd (reporters st ! i)) @ [ln]\<rparr>)]"
proof (cases out)
  case None
  with ok i cs show ?thesis
    by (simp add: appendHistory_suppressed self_update_def)
next
  case (Some shown)
  with ok i show ?thesis
    by (simp add: appendHistory_shown executeCommand_eq [OF d] nofail self_update_def)
qed

lemma for_reporters_appendHistory:
  assumes d: "\<And>m t s. \<not> callbackState s \<Longrightarrow> cb m t s = Returns () s"
    and nofail: "\<And>s c. \<not> fails h s c"
  shows "callbackState st \<Longrightarrow>
         \<forall>i\<in>set ixs. i < length (reporters st) \<and> (\<exists>out. lineFilter (self_at st i) ln = Inr out) \<Longrightarrow>
         \<exists>st'. for_reporters (\<lambda>i. appendHistory cb h i ln) ixs st = Returns () st' \<and>
               callbackState st' \<and>
               reporters st' =
                 fold (\<lambda>i rs. rs[i := (fst (rs ! i), (snd (rs ! i))\<lparr>history := history (snd (rs ! i)) @ [ln]\<rparr>)])
                   ixs (reporters st)"
proof (induction ixs arbitrary: st)
  case Nil
  then show ?case by simp
next
  case (Cons i ixs)
  from Cons.prems obtain out where i: "i < length (reporters st)"
    and ok: "lineFilter (self_at st i) ln = Inr out"
    by auto
  from appendHistory_step [where cb = cb and h = h, OF d nofail i ok Cons.prems(1)]
  obtain st1 where st1: "appendHistory cb h i ln st = Returns () st1" "callbackState st1"
    "reporters st1 = (reporters st)[i := (fst (reporters st ! i),
        (snd (reporters st ! i))\<lparr>history := history (snd (reporters st ! i)) @ [ln]\<rparr>)]"
    by blast
  have same: "lineFilter (self_at st1 j) ln = lineFilter (self_at st j) ln" for j
  proof (rule lineFilter_cong)
    show "filters (self_at st1 j) = filters (self_at st j)"
      using st1(3) i by (cases "j = i") (simp_all add: self_at_def)
  qed
  have "\<forall>j\<in>set ixs. j < length (reporters st1) \<and> (\<exists>out. lineFilter (self_at st1 j) ln = Inr out)"
    using Cons.prems(2) st1(3) by (simp add: same)
  from Cons.IH [OF st1(2) this] show ?case
    using st1 by simp
qed

lemma fold_update_all:
  "k \<le> length rs \<Longrightarrow>
   fold (\<lambda>i rs. rs[i := f (rs ! i)]) [0..<k] rs = map f (take k rs) @ drop k rs"
proof (induction k)
  case 0
  then show ?case by simp
next
  case (Suc k)
  then have k: "k < length rs" by simp
  have "(map f (take k rs) @ drop k rs)[k := f ((map f (take k rs) @ drop k rs) ! k)] =
          map f (take (Suc k) rs) @ drop (Suc k) rs"
    using k by (simp add: list_update_append nth_append take_Suc_conv_app_nth
        Cons_nth_drop_Suc [symmetric])
  with Suc show ?case by simp
qed

text \<open>
  C1, for a message delivered while \<open>callbackState\<close> is true. When no command of a
  reporter fails, every reporter's filters hold the two keys that \<open>lineFilter\<close>
  subscripts, and the message type indexes \<open>filterFlagNames\<close>, then
  \<^verbatim>\<open>cmdCallback\<close> returns, and the dictionary of reporters is the old one with the one
  line \<^verbatim>\<open>[messageType, sourceType, nativeMsg, convertedMsg]\<close> added at the end of
  every history: each history has grown by exactly that entry.
\<close>

theorem cmdCallback_appends:
  assumes "callbackState st"
    and "\<forall>s c. \<not> fails h s c"
    and "\<forall>r\<in>snd ` set (reporters st).
           filters r ''filterSourceType'' \<noteq> None \<and> filters r ''convertToPython'' \<noteq> None"
    and "- 7 \<le> messageType \<and> messageType < 7"
  shows "\<exists>st'. cmdCallback (Suc (Suc n)) h nativeMsg messageType st = Returns () st' \<and>
           fst (snd (classify h nativeMsg messageType st)) = messageType \<and>
           reporters st' =
             map (\<lambda>(key, r). (key, r\<lparr>history := history r @ [snd (classify h nativeMsg messageType st)]\<rparr>))
               (reporters st)"
proof -
  have d: "\<And>m t s. \<not> callbackState s \<Longrightarrow> cmdCallback (Suc n) h m t s = Returns () s"
    by (rule cmdCallback_dropped)
  obtain st1 ln where c: "classify h nativeMsg messageType st = (st1, ln)"
    by (cases "classify h nativeMsg messageType st")
  have fr: "callbackState st1" "reporters st1 = reporters st" "fst ln = messageType"
    using classify_frame [of h nativeMsg messageType st] c assms(1) by simp_all
  have ok: "\<forall>i\<in>set [0..<length (reporters st1)].
              i < length (reporters st1) \<and> (\<exists>out. lineFilter (self_at st1 i) ln = Inr out)"
  proof
    fix i assume "i \<in> set [0..<length (reporters st1)]"
    then have i: "i < length (reporters st)" using fr(2) by simp
    then have "snd (reporters st ! i) \<in> snd ` set (reporters st)" by simp
    with assms(3) have "filters (self_at st1 i) ''filterSourceType'' \<noteq> None"
      "filters (self_at st1 i) ''convertToPython'' \<noteq> None"
      by (auto simp: self_at_def fr(2))
    from lineFilter_returns [OF this] assms(4) fr(3) i
    show "i < length (reporters st1) \<and> (\<exists>out. lineFilter (self_at st1 i) ln = Inr out)"
      by (simp add: fr(2))
  qed
  have nofail: "\<And>s c. \<not> fails h s c" using assms(2) by simp
  from for_reporters_appendHistory [where cb = "cmdCallback (Suc n) h" and h = h, OF d nofail fr(1) ok]
  obtain st' where st': "for_reporters (\<lambda>i. appendHistory (cmdCallback (Suc n) h) h i ln)
                           [0..<length (reporters st1)] st1 = Returns () st'"
    "reporters st' = fold (\<lambda>i rs. rs[i := (fst (rs ! i), (snd (rs ! i))\<lparr>history := history (snd (rs ! i)) @ [ln]\<rparr>)])
                   [0..<length (reporters st1)] (reporters st1)"
    by blast
  have "reporters st' = map (\<lambda>kr. (fst kr, (snd kr)\<lparr>history := history (snd kr) @ [ln]\<rparr>)) (reporters st)"
    using st'(2) fold_update_all [of "length (reporters st)" "reporters st"
        "\<lambda>kr. (fst kr, (snd kr)\<lparr>history := history (snd kr) @ [ln]\<rparr>)"]
    by (simp add: fr(2))
  then show ?thesis
    using st'(1) c assms(1) fr(3)
    by (simp add: cmdCallback_body_def case_prod_beta)
qed

text \<open>
  C1 as stated, for every delivered message, fails: a message delivered while
  \<open>callbackState\<close> is false leaves the state, and so the history of the one reporter,
  as it was.
\<close>

theorem dropped_message_counterexample:
  "length (reporters (example_state\<lparr>callbackState := False\<rparr>)) = 1
   \<and> final (cmdCallback (Suc (Suc 0)) example_host ''sphere;'' 0
              (example_state\<lparr>callbackState := False\<rparr>)) =
       Some (example_state\<lparr>callbackState := False\<rparr>)"
  by (simp add: cmdCallback_body_def example_state_def)

theorem cmdCallback_appends_witness:
  "callbackState example_state
   \<and> (\<forall>s c. \<not> fails example_host s c)
   \<and> snd ` set (reporters example_state) = {example_reporter}
   \<and> filters example_reporter ''filterSourceType'' \<noteq> None
   \<and> filters example_reporter ''convertToPython'' \<noteq> None
   \<and> (\<exists>st'. cmdCallback (Suc (Suc 0)) example_host ''sphere;\<newline>'' 0 example_state = Returns () st' \<and>
         reporters st' =
           [(''window1|pane1|reporter1'',
             example_reporter\<lparr>history := [(0, Some ''mel'', ''sphere;\<newline>'', Some ''py sphere;\<newline>'')]\<rparr>)])"
  using cmdCallback_appends [of example_state example_host 0 0 "''sphere;\<newline>''"]
  by (simp add: example_state_def example_host_def example_reporter_def initial_def
      default_filters_def classify_def kMel_def)

text \<open>
  C2. A history message of the single character \<^verbatim>\<open>'1'\<close> has no \<^verbatim>\<open>';'\<close>:
  \<^verbatim>\<open>rfind\<close> gives -1, which is \<^verbatim>\<open>len(nativeMsg) - 2\<close>. The message is
  classified as mel and converted.
\<close>

theorem cmdCallback_one_character:
  "CHR '';'' \<notin> set ''1''
   \<and> classify example_host ''1'' (kHistory (messageTypes example_host)) example_state =
       (example_state\<lparr>sourceType := Some ''mel''\<rparr>, (0, Some ''mel'', ''1'', Some ''py 1''))
   \<and> map_option sourceType
        (final (cmdCallback (Suc (Suc 0)) example_host ''1'' (kHistory (messageTypes example_host))
                  example_state)) = Some (Some ''mel'')"
  by (simp add: classify_def kMel_def example_host_def cmdCallback_body_def example_state_def
      initial_def appendHistory_def self_update_def self_at_def lineFilter_def example_reporter_def
      default_filters_def py_index_def filterFlagNames_def executeCommand_def host_execute_def)

lemma rfind_range: "- 1 \<le> rfind s c \<and> rfind s c < int (length s)"
  by (induction s) (auto simp: Let_def)

lemma rfind_absent: "rfind s c = - 1 \<longleftrightarrow> c \<notin> set s"
proof (induction s)
  case Nil
  then show ?case by simp
next
  case (Cons a s)
  then show ?case
    using rfind_range [of s c] by (auto simp: Let_def)
qed

lemma rfind_found:
  "0 \<le> rfind s c \<Longrightarrow>
   s ! nat (rfind s c) = c \<and> (\<forall>j. nat (rfind s c) < j \<and> j < length s \<longrightarrow> s ! j \<noteq> c)"
proof (induction s)
  case Nil
  then show ?case by simp
next
  case (Cons a s)
  show ?case
  proof (cases "0 \<le> rfind s c")
    case True
    then have r: "rfind (a # s) c = rfind s c + 1" by (simp add: Let_def)
    have n: "nat (rfind s c + 1) = Suc (nat (rfind s c))" using True by simp
    show ?thesis
      unfolding r n using Cons.IH [OF True]
      by (auto simp: nth_Cons split: nat.splits)
  next
    case False
    then have "rfind s c = - 1" using rfind_range [of s c] by simp
    then have "c \<notin> set s" by (simp add: rfind_absent)
    then show ?thesis
      using Cons.prems False by (auto simp: Let_def nth_Cons split: if_splits nat.splits)
  qed
qed

text \<open>
  What the test of \<^verbatim>\<open>cmdCallback\<close> on a history message amounts to: for a message
  of one character, that the character is not \<^verbatim>\<open>';'\<close>; for any other message, that
  its last \<^verbatim>\<open>';'\<close> is the last character but one.
\<close>

lemma history_is_mel_iff:
  "sourceType (fst (classify h nativeMsg (kHistory (messageTypes h)) st)) = Some kMel \<longleftrightarrow>
     (if length nativeMsg = 1 then nativeMsg \<noteq> '';''
      else 2 \<le> length nativeMsg \<and> nativeMsg ! (length nativeMsg - 2) = CHR '';'' \<and>
           last nativeMsg \<noteq> CHR '';'')"
proof -
  have 1: "sourceType (fst (classify h nativeMsg (kHistory (messageTypes h)) st)) = Some kMel \<longleftrightarrow>
        rfind nativeMsg (CHR '';'') = int (length nativeMsg) - 2"
    by (simp add: classify_def kMel_def kPython_def)
  show ?thesis
  proof (cases "length nativeMsg = 1")
    case True
    then obtain x where x: "nativeMsg = [x]" by (cases nativeMsg) auto
    show ?thesis unfolding 1 using x by (simp add: Let_def)
  next
    case False
    show ?thesis
    proof (cases "2 \<le> length nativeMsg")
      case short: False
      with False have "length nativeMsg = 0" by linarith
      then have "nativeMsg = []" by simp
      then show ?thesis unfolding 1 by simp
    next
      case True
      let ?k = "length nativeMsg - 2"
      have ne: "nativeMsg \<noteq> []" using True by auto
      have sk: "Suc ?k = length nativeMsg - 1" using True by simp
      have k: "int (length nativeMsg) - 2 = int ?k" "Suc ?k < length nativeMsg"
        "last nativeMsg = nativeMsg ! Suc ?k"
        using True last_conv_nth [OF ne] unfolding sk by auto
      show ?thesis
      proof
        assume "sourceType (fst (classify h nativeMsg (kHistory (messageTypes h)) st)) = Some kMel"
        then have r: "rfind nativeMsg (CHR '';'') = int ?k" unfolding 1 k(1) .
        then have "0 \<le> rfind nativeMsg (CHR '';'')" by simp
        from rfind_found [OF this]
        have "nativeMsg ! nat (int ?k) = CHR '';''"
          "nat (int ?k) < Suc ?k \<and> Suc ?k < length nativeMsg \<longrightarrow> nativeMsg ! Suc ?k \<noteq> CHR '';''"
          unfolding r by blast+
        moreover have "nat (int ?k) = ?k" by (rule nat_int)
        ultimately have "nativeMsg ! ?k = CHR '';''" "nativeMsg ! Suc ?k \<noteq> CHR '';''"
          using k(2) by (simp_all only: lessI simp_thms)
        then have "nativeMsg ! ?k = CHR '';''" "last nativeMsg \<noteq> CHR '';''"
          unfolding k(3) by simp_all
        with True False show "if length nativeMsg = 1 then nativeMsg \<noteq> '';''
      else 2 \<le> length nativeMsg \<and> nativeMsg ! (length nativeMsg - 2) = CHR '';'' \<and>
           last nativeMsg \<noteq> CHR '';''"
          by simp
      next
        assume "if length nativeMsg = 1 then nativeMsg \<noteq> '';''
      else 2 \<le> length nativeMsg \<and> nativeMsg ! (length nativeMsg - 2) = CHR '';'' \<and>
           last nativeMsg \<noteq> CHR '';''"
        with False have a: "nativeMsg ! ?k = CHR '';''" "nativeMsg ! Suc ?k \<noteq> CHR '';''"
          using k(3) by simp_all
        have "CHR '';'' \<in> set nativeMsg"
          using a(1) k(2) by (metis Suc_lessD nth_mem)
        then have ge: "0 \<le> rfind nativeMsg (CHR '';'')"
          using rfind_absent [of nativeMsg "CHR '';''"] rfind_range [of nativeMsg "CHR '';''"] by simp
        from rfind_found [OF ge] have f: "nativeMsg ! nat (rfind nativeMsg (CHR '';'')) = CHR '';''"
          "\<And>j. nat (rfind nativeMsg (CHR '';'')) < j \<Longrightarrow> j < length nativeMsg \<Longrightarrow> nativeMsg ! j \<noteq> CHR '';''"
          by auto
        have "nat (rfind nativeMsg (CHR '';'')) < length nativeMsg"
          using rfind_range [of nativeMsg "CHR '';''"] ge by simp
        have "\<not> nat (rfind nativeMsg (CHR '';'')) < ?k"
          using f(2) [of ?k] a(1) k(2) by auto
        moreover have "nat (rfind nativeMsg (CHR '';'')) \<noteq> Suc ?k"
          using f(1) a(2) by auto
        moreover have "nat (rfind nativeMsg (CHR '';'')) < Suc (Suc ?k)"
          using rfind_range [of nativeMsg "CHR '';''"] ge True by simp
        ultimately have "nat (rfind nativeMsg (CHR '';'')) = ?k" by simp
        then have "rfind nativeMsg (CHR '';'') = int ?k" using ge by simp
        then show "sourceType (fst (classify h nativeMsg (kHistory (messageTypes h)) st)) = Some kMel"
          unfolding 1 k(1) .
      qed
    qed
  qed
qed

section \<open>Reporter.setFilters\<close>

lemma refreshHistory_loop_concat:
  "\<forall>ln\<in>set lns. \<exists>out. lineFilter r ln = Inr out \<Longrightarrow>
   refreshHistory_loop r lns acc =
     Inr (acc @ concat (map (\<lambda>ln. case lineFilter r ln of Inr (Some s) \<Rightarrow> s | _ \<Rightarrow> []) lns))"
proof (induction lns arbitrary: acc)
  case Nil
  then show ?case by simp
next
  case (Cons ln lns)
  then obtain out where out: "lineFilter r ln = Inr out" by auto
  with Cons show ?case by (cases out) simp_all
qed

text \<open>
  C5. \<^verbatim>\<open>setFilters\<close> always ends; after it the filters of the reporter are the
  old ones updated with the keyword arguments and the history is as it was. When
  \<open>lineFilter\<close> with the new filters raises on no line of the history, the call
  has had the host execute exactly one command, \<^verbatim>\<open>scrollField -e -text\<close> with the
  reporter's name and, as text, the results of \<open>lineFilter\<close> on the lines of the
  history joined in the order of the history, a suppressed line adding nothing.
\<close>

theorem setFilters_rerenders:
  assumes "self < length (reporters st)"
  shows \<open>\<exists>st'. final (setFilters (cmdCallback (Suc n) h) h self kwargs st) = Some st'
          \<and> filters (self_at st' self) = filters (self_at st self) ++ map_of kwargs
          \<and> history (self_at st' self) = history (self_at st self)
          \<and> ((\<forall>ln\<in>set (history (self_at st self)). \<exists>out. lineFilter (self_at st' self) ln = Inr out) \<longrightarrow>
               executed st' = executed st @
                 [''scrollField -e -text "'' @
                  concat (map (\<lambda>ln. case lineFilter (self_at st' self) ln of
                                       Inr (Some s) \<Rightarrow> s | _ \<Rightarrow> [])
                            (history (self_at st self))) @
                  ''" "'' @ name (self_at st self) @ ''";''])\<close>
proof -
  have d: "\<And>m t s. \<not> callbackState s \<Longrightarrow> cmdCallback (Suc n) h m t s = Returns () s"
    by (rule cmdCallback_dropped)
  let ?st1 = "self_update self (\<lambda>r. r\<lparr>filters := filters r ++ map_of kwargs\<rparr>) st"
  let ?r = "self_at ?st1 self"
  have r: "?r = (self_at st self)\<lparr>filters := filters (self_at st self) ++ map_of kwargs\<rparr>"
    using assms by (simp add: self_at_update)
  have e: "executed ?st1 = executed st"
    by (simp add: self_update_def)
  have s: "\<And>f g. self_at (?st1\<lparr>callbackState := f, executed := g\<rparr>) = self_at ?st1"
    by (simp add: self_at_def fun_eq_iff)
  show ?thesis
  proof (cases "refreshHistory_loop ?r (history ?r) []")
    case (Inl e)
    have "\<not> (\<forall>ln\<in>set (history ?r). \<exists>out. lineFilter ?r ln = Inr out)"
      using refreshHistory_loop_concat [of "history ?r" ?r "[]"] Inl by auto
    with Inl show ?thesis
      unfolding setFilters_def refreshHistory_def by (auto simp: r)
  next
    case (Inr rendered)
    have "(\<forall>ln\<in>set (history ?r). \<exists>out. lineFilter ?r ln = Inr out) \<longrightarrow>
          rendered = concat (map (\<lambda>ln. case lineFilter ?r ln of Inr (Some s) \<Rightarrow> s | _ \<Rightarrow> []) (history ?r))"
      using refreshHistory_loop_concat [of "history ?r" ?r "[]"] Inr by auto
    with Inr show ?thesis
      unfolding setFilters_def refreshHistory_def
      by (simp add: executeCommand_eq [OF d] s e) (simp add: r)
  qed
qed

theorem setFilters_rerenders_witness:
  \<open>(0::nat) < length (reporters (self_update 0 (\<lambda>r. r\<lparr>history :=
        [(0, Some ''mel'', ''ls;'', Some ''ls()''), (5, Some ''mel'', ''// 1 //'', Some ''# 1 #'')]\<rparr>) example_state))
   \<and> (\<exists>st'. final (setFilters (cmdCallback (Suc 0) example_host) example_host 0
                     [(''suppressResults'', PBool True), (''convertToPython'', PBool True)]
                     (self_update 0 (\<lambda>r. r\<lparr>history :=
        [(0, Some ''mel'', ''ls;'', Some ''ls()''), (5, Some ''mel'', ''// 1 //'', Some ''# 1 #'')]\<rparr>) example_state)) = Some st'
           \<and> filters (self_at st' 0) ''suppressResults'' = Some (PBool True)
           \<and> executed st' = [''scrollField -e -text "ls()" "reporter1";''])\<close>
  using setFilters_rerenders [of 0 "self_update 0 (\<lambda>r. r\<lparr>history :=
        [(0, Some ''mel'', ''ls;'', Some ''ls()''), (5, Some ''mel'', ''// 1 //'', Some ''# 1 #'')]\<rparr>) example_state"
        0 example_host "[(''suppressResults'', PBool True), (''convertToPython'', PBool True)]"]
  apply (simp add: example_state_def initial_def self_update_def self_at_def example_reporter_def)
  apply (erule exE)
  apply (rule_tac x = st' in exI)
  apply (simp add: lineFilter_def default_filters_def py_index_def filterFlagNames_def map_add_def)
  done

section \<open>scriptedCommand.doIt and the callback\<close>

lemma unchanged_simps [simp]:
  "unchanged (Returns a st') st \<longleftrightarrow> callbacks st' = callbacks st \<and> messageIdSet st' = messageIdSet st"
  "unchanged (Raises e st') st \<longleftrightarrow> callbacks st' = callbacks st \<and> messageIdSet st' = messageIdSet st"
  "\<not> unchanged Diverges st"
  by (simp_all add: unchanged_def)

lemma unchanged_bind:
  assumes "unchanged r st"
    and "\<And>a s. callbacks s = callbacks st \<Longrightarrow> messageIdSet s = messageIdSet st \<Longrightarrow> unchanged (g a s) s"
  shows "unchanged (bind r g) st"
proof (cases r)
  case Diverges
  with assms(1) show ?thesis by simp
next
  case (Raises e s)
  with assms(1) show ?thesis by simp
next
  case (Returns a s)
  with assms(1) have "callbacks s = callbacks st" "messageIdSet s = messageIdSet st" by simp_all
  with assms(2) [of s a] Returns show ?thesis by (simp add: unchanged_def split: option.splits)
qed

lemma unchanged_cong:
  "callbacks s = callbacks st \<Longrightarrow> messageIdSet s = messageIdSet st \<Longrightarrow> unchanged r s \<Longrightarrow> unchanged r st"
  by (simp add: unchanged_def split: option.splits)

lemma self_update_frame [simp]:
  "callbacks (self_update i f st) = callbacks st"
  "messageIdSet (self_update i f st) = messageIdSet st"
  by (simp_all add: self_update_def)

lemma executeCommand_unchanged:
  assumes "\<And>m t s. \<not> callbackState s \<Longrightarrow> cb m t s = Returns () s"
  shows "unchanged (executeCommand cb h cmd st) st"
  by (simp add: executeCommand_eq [OF assms])

lemma executeCommandResult_unchanged:
  assumes "\<And>m t s. \<not> callbackState s \<Longrightarrow> cb m t s = Returns () s"
  shows "unchanged (executeCommandResult cb h cmd st) st"
  by (simp add: executeCommandResult_eq [OF assms])

lemma setFilters_unchanged:
  assumes "\<And>m t s. \<not> callbackState s \<Longrightarrow> cb m t s = Returns () s"
  shows "unchanged (setFilters cb h self kwargs st) st"
proof -
  let ?st1 = "self_update self (\<lambda>r. r\<lparr>filters := filters r ++ map_of kwargs\<rparr>) st"
  have "unchanged (refreshHistory cb h self ?st1) ?st1"
    using executeCommand_unchanged [where cb = cb, OF assms]
    by (simp add: refreshHistory_def split: sum.splits)
  then show ?thesis
    unfolding setFilters_def by (rule unchanged_cong [rotated 2]) simp_all
qed

lemma setGlobalFilters_unchanged:
  assumes "\<And>m t s. \<not> callbackState s \<Longrightarrow> cb m t s = Returns () s"
  shows "unchanged (setGlobalFilters cb h self kwargs st) st"
  unfolding setGlobalFilters_def Let_def
  by (rule unchanged_cong [rotated 2], rule unchanged_bind,
      rule executeCommand_unchanged [where cb = cb, OF assms]) simp_all

lemma Reporter_clear_unchanged:
  assumes "\<And>m t s. \<not> callbackState s \<Longrightarrow> cb m t s = Returns () s"
  shows "unchanged (Reporter_clear cb h self st) st"
  unfolding Reporter_clear_def by (rule executeCommand_unchanged [where cb = cb, OF assms])

lemma Reporter_text_unchanged:
  assumes "\<And>m t s. \<not> callbackState s \<Longrightarrow> cb m t s = Returns () s"
  shows "unchanged (Reporter_text cb h self t st) st"
  unfolding Reporter_text_def by (rule executeCommand_unchanged [where cb = cb, OF assms])

lemma Reporter_init_unchanged:
  assumes "\<And>m t s. \<not> callbackState s \<Longrightarrow> cb m t s = Returns () s"
  shows "unchanged (Reporter_init cb h args kwargs st) st"
  unfolding Reporter_init_def Let_def
proof (rule unchanged_bind)
  show "unchanged (executeCommandResult cb h c st) st" for c
    by (rule executeCommandResult_unchanged [where cb = cb, OF assms])
next
  fix a s
  show "unchanged (Returns \<lparr>name = a, filters = default_filters ++ map_of kwargs, history = []\<rparr> s) s"
    by simp
qed

lemma doIt_callback_ok: "keeps_ok (doIt_callback h result st) st"
  by (auto simp: keeps_ok_def doIt_callback_def createCallback_def callbacks_ok_def
      split: option.splits)

lemma keeps_ok_bind:
  assumes "unchanged r st"
    and "\<And>a s. callbacks s = callbacks st \<Longrightarrow> messageIdSet s = messageIdSet st \<Longrightarrow> keeps_ok (g a s) s"
  shows "keeps_ok (bind r g) st"
proof (cases r)
  case Diverges
  with assms(1) show ?thesis by simp
next
  case (Raises e s)
  with assms(1) show ?thesis by (simp add: keeps_ok_def callbacks_ok_def)
next
  case (Returns a s)
  with assms(1) have "callbacks s = callbacks st" "messageIdSet s = messageIdSet st" by simp_all
  with assms(2) [of s a] Returns show ?thesis
    by (auto simp: keeps_ok_def callbacks_ok_def split: option.splits)
qed

lemma keeps_ok_cong:
  "callbacks s = callbacks st \<Longrightarrow> messageIdSet s = messageIdSet st \<Longrightarrow> keeps_ok r s \<Longrightarrow> keeps_ok r st"
  by (auto simp: keeps_ok_def callbacks_ok_def split: option.splits)

lemma keeps_ok_Raises [simp]: "keeps_ok (Raises e st) st"
  by (simp add: keeps_ok_def)

lemma keeps_ok_Returns [simp]: "keeps_ok (Returns a st) st"
  by (simp add: keeps_ok_def)

lemma doIt_query_ok: "keeps_ok (doIt_query h a nm st) st"
  unfolding doIt_query_def
  by (auto simp: getGlobalFilter_def doIt_callback_ok split: sum.splits option.splits prod.splits)

lemma doIt_edit_ok:
  assumes d: "\<And>m t s. \<not> callbackState s \<Longrightarrow> cb m t s = Returns () s"
  shows "keeps_ok (doIt_edit cb h a nm flt gflt st) st"
proof (cases "reporters_getitem st nm")
  case (Inl e)
  then show ?thesis by (simp add: doIt_edit_def)
next
  case (Inr self)
  have 1: "unchanged (if flt \<noteq> [] then setFilters cb h self flt st else Returns () st) st"
    using setFilters_unchanged [where cb = cb, OF d] by simp
  have 2: "unchanged (if gflt \<noteq> [] then setGlobalFilters cb h self gflt s else Returns () s) s" for s
    using setGlobalFilters_unchanged [where cb = cb, OF d] by simp
  have 3: "unchanged (if isFlagSet a (fst kClear) then Reporter_clear cb h self s
                else if isFlagSet a (fst kText) then
                  (case flagArgumentString a (fst kText) of
                     Inl e \<Rightarrow> Raises e s
                   | Inr t \<Rightarrow> Reporter_text cb h self t s)
                else if isFlagSet a (fst kCmdReporter) then
                  (case flagArgumentString a (fst kCmdReporter) of
                     Inl e \<Rightarrow> Raises e s
                   | Inr c \<Rightarrow> addCmdReporter self c s)
                else Returns () s) s" for s
    using Reporter_clear_unchanged [where cb = cb, OF d] Reporter_text_unchanged [where cb = cb, OF d]
    by (simp add: addCmdReporter_def split: sum.splits)
  show ?thesis
    unfolding doIt_edit_def Inr sum.case
    by (intro keeps_ok_bind 1 2 3 doIt_callback_ok)
qed

lemma doIt_create_ok:
  assumes d: "\<And>m t s. \<not> callbackState s \<Longrightarrow> cb m t s = Returns () s"
  shows "keeps_ok (doIt_create cb h nm flt st) st"
  unfolding doIt_create_def
proof (rule keeps_ok_bind [OF Reporter_init_unchanged [where cb = cb, OF d]])
  fix r s
  show "keeps_ok (doIt_callback h (Some (PStr (name r)))
           (s\<lparr>reporters := AList.update (name r) r (reporters s)\<rparr>)) s"
    by (rule keeps_ok_cong [OF _ _ doIt_callback_ok]) simp_all
qed

lemma doIt_ok:
  assumes d: "\<And>m t s. \<not> callbackState s \<Longrightarrow> cb m t s = Returns () s"
  shows "keeps_ok (doIt cb h a st) st"
  unfolding doIt_def Let_def
  using doIt_query_ok doIt_edit_ok [where cb = cb, OF d] doIt_create_ok [where cb = cb, OF d]
  by (simp split: sum.splits)

lemma run_ok:
  "callbacks_ok st \<Longrightarrow> \<exists>st'. run (Suc n) h invocations st = Some st' \<and> callbacks_ok st'"
proof (induction invocations arbitrary: st)
  case Nil
  then show ?case by simp
next
  case (Cons a rest)
  have "keeps_ok (doIt (cmdCallback (Suc n) h) h a st) st"
    by (rule doIt_ok) (rule cmdCallback_dropped)
  with Cons.prems obtain st1 where
    "final (doIt (cmdCallback (Suc n) h) h a st) = Some st1" "callbacks_ok st1"
    by (auto simp: keeps_ok_def split: option.splits)
  with Cons.IH [of st1] show ?case by simp
qed

text \<open>
  C6. The end of \<^verbatim>\<open>doIt\<close> registers nothing when \<open>messageIdSet\<close> is true;
  \<^verbatim>\<open>createCallback\<close>, when the host accepts the callback, installs it and sets
  \<open>messageIdSet\<close>; and any sequence of invocations of the command, started in the
  module's initial state, ends, with at most one callback installed.
\<close>

theorem at_most_one_callback:
  "(messageIdSet st \<longrightarrow> doIt_callback h result st = Returns result st)
   \<and> (\<forall>ident. addCommandOutputCallback h st = Some ident \<longrightarrow>
         createCallback h st =
           Returns ident (st\<lparr>callbacks := callbacks st @ [ident], messageIdSet := True\<rparr>))
   \<and> (\<exists>st'. run (Suc n) h invocations initial = Some st' \<and> length (callbacks st') \<le> 1)"
proof -
  have "callbacks_ok initial" by (simp add: callbacks_ok_def initial_def)
  from run_ok [OF this, of n h invocations] show ?thesis
    by (auto simp: callbacks_ok_def doIt_callback_def createCallback_def split: if_splits)
qed

theorem at_most_one_callback_witness:
  "messageIdSet example_state
   \<and> doIt_callback example_host None example_state = Returns None example_state
   \<and> addCommandOutputCallback example_host initial = Some 1
   \<and> createCallback example_host initial =
       Returns 1 (initial\<lparr>callbacks := [1], messageIdSet := True\<rparr>)
   \<and> (\<exists>st'. run (Suc 0) example_host [example_create, example_edit, example_create] initial = Some st'
          \<and> length (callbacks st') \<le> 1)"
  using at_most_one_callback [of example_state example_host None 0
      "[example_create, example_edit, example_create]"]
    at_most_one_callback [of initial example_host None 0 "[]"]
  by (simp add: example_state_def example_host_def initial_def)

lemma run_example:
  "map_option callbacks (run (Suc 0) example_host [example_create, example_edit, example_create] initial)
     = Some [1]"
  by (simp add: example_create_def example_edit_def example_host_def initial_def doIt_def
      collect_filters.simps filterFlags_def globalFilterFlags_def isFlagSet_def
      doIt_create_def Reporter_init_def executeCommandResult_def host_execute_def
      doIt_callback_def createCallback_def kPluginCmdName_def doIt_edit_def reporters_getitem_def
      py_slice_from_def flagArgumentBool_def setFilters_def refreshHistory_def self_at_def
      self_update_def executeCommand_def cmdCallback_body_def kClear_def kText_def kCmdReporter_def
      default_filters_def Let_def)

end
